theory Spec2Isabelle
  imports Complex_Main "HOL-Library.Word"
begin

unbundle bit_operations_syntax

section \<open>Style descriptors and their resolution\<close>

text \<open>
  The file under verification is \<^verbatim>\<open>layout/style/FontFaceSetImpl.cpp\<close>.  The value classes
  \<^verbatim>\<open>FontWeight\<close>, \<^verbatim>\<open>FontStretch\<close> and \<^verbatim>\<open>FontSlantStyle\<close> are declared in a header that
  is not part of the sources, so they are type parameters \<open>'w\<close>, \<open>'s\<close>, \<open>'i\<close>, and
  their constants and conversions are the fields of \<open>FontPropertyTypes\<close>.  A C++ \<^verbatim>\<open>float\<close>
  is only ever copied here (and compared with nothing), so it is a \<open>real\<close>.
\<close>

type_synonym float = real

record ('w, 's, 'i) FontPropertyTypes =
  FontWeight_NORMAL :: 'w
  FontWeight_FromFloat :: "float \<Rightarrow> 'w"
  FontStretch_NORMAL :: 's
  FontSlantStyle_NORMAL :: 'i
  FontSlantStyle_ITALIC :: 'i
  FontSlantStyle_FromFloat :: "float \<Rightarrow> 'i"

text \<open>
  \<^verbatim>\<open>gfxFontEntry::RangeFlags\<close> is a bit set.  Its declaration is not part of the sources;
  the three flags this file sets are modelled as distinct single bits of a 16-bit word.
\<close>

type_synonym RangeFlags = "16 word"

definition eNoFlags :: RangeFlags where
  "eNoFlags = 0"

definition eAutoWeight :: RangeFlags where
  "eAutoWeight = push_bit 0 1"

definition eAutoStretch :: RangeFlags where
  "eAutoStretch = push_bit 1 1"

definition eAutoSlantStyle :: RangeFlags where
  "eAutoSlantStyle = push_bit 2 1"

text \<open>A one-argument range constructor \<^verbatim>\<open>WeightRange(v)\<close> is the point range from v to v.\<close>

definition point_range :: "'a \<Rightarrow> 'a \<times> 'a" where
  "point_range v = (v, v)"

datatype StyleComputedFontStyleDescriptor = Normal | Italic | Oblique float float

text \<open>
  Each resolver takes the flags by reference and returns the range; the model returns the
  range together with the updated flags.
\<close>

definition GetWeightRangeForDescriptor ::
  "('w, 's, 'i) FontPropertyTypes \<Rightarrow> (float \<times> float) option \<Rightarrow> RangeFlags
    \<Rightarrow> ('w \<times> 'w) \<times> RangeFlags" where
  "GetWeightRangeForDescriptor T aVal aRangeFlags =
     (case aVal of
        None \<Rightarrow> (point_range (FontWeight_NORMAL T), aRangeFlags OR eAutoWeight)
      | Some v \<Rightarrow>
          ((FontWeight_FromFloat T (fst v), FontWeight_FromFloat T (snd v)), aRangeFlags))"

text \<open>
  The slant resolver is a \<^verbatim>\<open>switch\<close> whose three arms each return, followed by
  \<^verbatim>\<open>MOZ_ASSERT_UNREACHABLE("How?")\<close>.  \<open>style_switch\<close> is the switch (\<open>None\<close> when no arm
  is taken), and falling out of it is the outcome \<open>AssertUnreachable\<close>.
\<close>

datatype fatal = AssertUnreachable

definition style_switch ::
  "('w, 's, 'i) FontPropertyTypes \<Rightarrow> StyleComputedFontStyleDescriptor \<Rightarrow> ('i \<times> 'i) option" where
  "style_switch T val =
     (case val of
        Normal \<Rightarrow> Some (point_range (FontSlantStyle_NORMAL T))
      | Italic \<Rightarrow> Some (point_range (FontSlantStyle_ITALIC T))
      | Oblique a b \<Rightarrow> Some (FontSlantStyle_FromFloat T a, FontSlantStyle_FromFloat T b))"

definition GetStyleRangeForDescriptor ::
  "('w, 's, 'i) FontPropertyTypes \<Rightarrow> StyleComputedFontStyleDescriptor option \<Rightarrow> RangeFlags
    \<Rightarrow> (fatal + ('i \<times> 'i)) \<times> RangeFlags" where
  "GetStyleRangeForDescriptor T aVal aRangeFlags =
     (case aVal of
        None \<Rightarrow> (Inr (point_range (FontSlantStyle_NORMAL T)), aRangeFlags OR eAutoSlantStyle)
      | Some val \<Rightarrow>
          (case style_switch T val of
             Some r \<Rightarrow> (Inr r, aRangeFlags)
           | None \<Rightarrow> (Inl AssertUnreachable, aRangeFlags)))"

definition GetStretchRangeForDescriptor ::
  "('w, 's, 'i) FontPropertyTypes \<Rightarrow> ('s \<times> 's) option \<Rightarrow> RangeFlags
    \<Rightarrow> ('s \<times> 's) \<times> RangeFlags" where
  "GetStretchRangeForDescriptor T aVal aRangeFlags =
     (case aVal of
        None \<Rightarrow> (point_range (FontStretch_NORMAL T), aRangeFlags OR eAutoStretch)
      | Some v \<Rightarrow> ((fst v, snd v), aRangeFlags))"

section \<open>Source list building\<close>

datatype StyleOrigin = UserAgent | User | Author

datatype StyleFontFaceSourceFormatKeyword =
  None_format | Collection | EmbeddedOpentype | Opentype | Svg | Truetype | Woff | Woff2
  | Unknown

type_synonym StyleFontFaceSourceTechFlags = "16 word"

text \<open>
  A \<^verbatim>\<open>StyleCssUrl\<close>: \<open>GetURI\<close> is the resolved URI (\<open>None\<close> for a null \<^verbatim>\<open>nsIURI*\<close>), and the
  two other fields are what \<^verbatim>\<open>ExtraData()\<close> provides.
\<close>

record StyleCssUrl =
  GetURI :: "string option"
  ReferrerInfo :: nat
  Principal :: nat

datatype StyleFontFaceSourceListComponent =
  Local string
  | Url StyleCssUrl
  | FormatHintKeyword StyleFontFaceSourceFormatKeyword
  | FormatHintString string
  | TechFlags StyleFontFaceSourceTechFlags

datatype SourceType = eSourceType_Local | eSourceType_URL | eSourceType_Buffer

record gfxFontFaceSrc =
  mSourceType :: SourceType
  mUseOriginPrincipal :: bool
  mTechFlags :: StyleFontFaceSourceTechFlags
  mFormatHint :: StyleFontFaceSourceFormatKeyword
  mLocalName :: string
  mURI :: "string option"
  mReferrerInfo :: "nat option"
  mOriginPrincipal :: "(nat \<times> nat) option"
  mBuffer :: "nat option"

text \<open>
  The element \<^verbatim>\<open>srcArray.AppendElement()\<close> returns, before the arm of the switch writes its
  fields: strings empty, pointers null, the flag false.  Every arm writes the source type
  and the format hint.  The \<^verbatim>\<open>Local\<close> arm and the buffer branch do not write the technology
  flags, which the struct's declaration (outside the sources) initialises; they are taken
  as empty.
\<close>

definition new_src :: "SourceType \<Rightarrow> gfxFontFaceSrc" where
  "new_src t =
     \<lparr> mSourceType = t, mUseOriginPrincipal = False, mTechFlags = 0,
       mFormatHint = None_format, mLocalName = [], mURI = None, mReferrerInfo = None,
       mOriginPrincipal = None, mBuffer = None \<rparr>"

text \<open>
  \<^verbatim>\<open>LowerCaseEqualsASCII\<close>: the string, with the ASCII capitals lowered, equals the literal.
\<close>

definition ASCIIToLower :: "char \<Rightarrow> char" where
  "ASCIIToLower c =
     (let n = (of_char c :: nat) in if 65 \<le> n \<and> n \<le> 90 then char_of (n + 32) else c)"

definition LowerCaseEqualsASCII :: "string \<Rightarrow> string \<Rightarrow> bool" where
  "LowerCaseEqualsASCII valueString lit = (map ASCIIToLower valueString = lit)"

text \<open>
  The chain of comparisons on a \<^verbatim>\<open>FormatHintString\<close>; the first argument is the pref
  \<^verbatim>\<open>layout.css.font-variations.enabled\<close>.
\<close>

definition format_hint_of_string :: "bool \<Rightarrow> string \<Rightarrow> StyleFontFaceSourceFormatKeyword" where
  "format_hint_of_string font_variations_enabled valueString =
     (if LowerCaseEqualsASCII valueString ''woff'' then Woff
      else if LowerCaseEqualsASCII valueString ''woff2'' then Woff2
      else if LowerCaseEqualsASCII valueString ''opentype'' then Opentype
      else if LowerCaseEqualsASCII valueString ''truetype'' then Truetype
      else if LowerCaseEqualsASCII valueString ''truetype-aat'' then Truetype
      else if LowerCaseEqualsASCII valueString ''embedded-opentype'' then EmbeddedOpentype
      else if LowerCaseEqualsASCII valueString ''svg'' then Svg
      else if font_variations_enabled then
        (if LowerCaseEqualsASCII valueString ''woff-variations'' then Woff
         else if LowerCaseEqualsASCII valueString ''woff2-variations'' then Woff2
         else if LowerCaseEqualsASCII valueString ''opentype-variations'' then Opentype
         else if LowerCaseEqualsASCII valueString ''truetype-variations'' then Truetype
         else Unknown)
      else Unknown)"

text \<open>
  The first look-ahead of the \<^verbatim>\<open>Url\<close> arm: when a component follows (\<open>i + 1 < len\<close>) and is
  a format hint, the hint is stored in the source and \<open>i\<close> advances.  The result is the
  source and the new \<open>i\<close>.
\<close>

definition check_format_hint ::
  "bool \<Rightarrow> StyleFontFaceSourceListComponent list \<Rightarrow> nat \<Rightarrow> gfxFontFaceSrc
    \<Rightarrow> gfxFontFaceSrc \<times> nat" where
  "check_format_hint font_variations_enabled sourceListComponents i face =
     (if i + 1 < length sourceListComponents then
        (case sourceListComponents ! (i + 1) of
           FormatHintKeyword k \<Rightarrow> (face\<lparr>mFormatHint := k\<rparr>, i + 1)
         | FormatHintString valueString \<Rightarrow>
             (face\<lparr>mFormatHint := format_hint_of_string font_variations_enabled valueString\<rparr>,
              i + 1)
         | TechFlags t \<Rightarrow> (face, i)
         | Local a \<Rightarrow> (face, i)
         | Url u \<Rightarrow> (face, i))
      else (face, i))"

text \<open>The second look-ahead: a set of font-technology flags.\<close>

definition check_tech_flags ::
  "StyleFontFaceSourceListComponent list \<Rightarrow> nat \<Rightarrow> gfxFontFaceSrc \<Rightarrow> gfxFontFaceSrc \<times> nat" where
  "check_tech_flags sourceListComponents i face =
     (if i + 1 < length sourceListComponents then
        (case sourceListComponents ! (i + 1) of
           TechFlags t \<Rightarrow> (face\<lparr>mTechFlags := t\<rparr>, i + 1)
         | _ \<Rightarrow> (face, i))
      else (face, i))"

text \<open>The fields the \<^verbatim>\<open>Url\<close> arm writes before it looks ahead.\<close>

definition url_src :: "StyleOrigin \<Rightarrow> StyleCssUrl \<Rightarrow> gfxFontFaceSrc" where
  "url_src aOrigin url =
     (let face = (new_src eSourceType_URL)\<lparr>mURI := GetURI url, mReferrerInfo := Some (ReferrerInfo url)\<rparr>;
          face = (if aOrigin = User \<or> aOrigin = UserAgent
                  then face\<lparr>mUseOriginPrincipal := True,
                            mOriginPrincipal := Some (Principal url, Principal url)\<rparr>
                  else face)
      in face\<lparr>mLocalName := [], mFormatHint := None_format, mTechFlags := 0\<rparr>)"

definition local_src :: "string \<Rightarrow> gfxFontFaceSrc" where
  "local_src atom =
     (new_src eSourceType_Local)\<lparr>mLocalName := atom, mURI := None, mFormatHint := None_format\<rparr>"

text \<open>
  The \<^verbatim>\<open>for (size_t i = 0; i < len; ++i)\<close> loop over the source list components, from index
  \<open>i\<close> with the sources built so far.  A \<^verbatim>\<open>Url\<close> whose URI is null is removed again
  (\<^verbatim>\<open>RemoveLastElement\<close>, \<^verbatim>\<open>continue\<close>) after its hints were consumed.  A hint or flags
  component met at the head of an iteration is \<^verbatim>\<open>MOZ_ASSERT_UNREACHABLE\<close>, the outcome
  \<open>AssertUnreachable\<close>; a build without assertions would go on with the element just
  appended left as it was constructed, and no theorem below is about such a list.
\<close>

function build_sources ::
  "StyleOrigin \<Rightarrow> bool \<Rightarrow> StyleFontFaceSourceListComponent list \<Rightarrow> nat \<Rightarrow> gfxFontFaceSrc list
    \<Rightarrow> fatal + gfxFontFaceSrc list" where
  "build_sources aOrigin fv sourceListComponents i srcArray =
     (if i < length sourceListComponents then
        (case sourceListComponents ! i of
           Local atom \<Rightarrow>
             build_sources aOrigin fv sourceListComponents (i + 1) (srcArray @ [local_src atom])
         | Url url \<Rightarrow>
             (let r1 = check_format_hint fv sourceListComponents i (url_src aOrigin url);
                  r2 = check_tech_flags sourceListComponents (snd r1) (fst r1)
              in if mURI (fst r2) = None
                 then build_sources aOrigin fv sourceListComponents (snd r2 + 1) srcArray
                 else build_sources aOrigin fv sourceListComponents (snd r2 + 1)
                        (srcArray @ [fst r2]))
         | FormatHintKeyword k \<Rightarrow> Inl AssertUnreachable
         | FormatHintString v \<Rightarrow> Inl AssertUnreachable
         | TechFlags t \<Rightarrow> Inl AssertUnreachable)
      else Inr srcArray)"
  by pat_completeness auto
termination
  by (relation "measure (\<lambda>(aOrigin, fv, cs, i, srcArray). length cs - i)")
     (auto simp: check_format_hint_def check_tech_flags_def
           split: if_splits StyleFontFaceSourceListComponent.splits)

declare build_sources.simps [simp del]

text \<open>
  Vocabulary for the theorems on the loop: a component list that is empty or starts with a
  source; the hint strings the chain of comparisons knows; what may follow a \<^verbatim>\<open>Url\<close>
  component; and the sequencing of two runs of the loop.
\<close>

definition starts_source :: "StyleFontFaceSourceListComponent list \<Rightarrow> bool" where
  "starts_source cs =
     (case cs of [] \<Rightarrow> True | Local a # rest \<Rightarrow> True | Url u # rest \<Rightarrow> True | _ \<Rightarrow> False)"

definition recognized_format_strings :: "bool \<Rightarrow> string list" where
  "recognized_format_strings fv =
     [''woff'', ''woff2'', ''opentype'', ''truetype'', ''truetype-aat'', ''embedded-opentype'', ''svg'']
     @ (if fv then [''woff-variations'', ''woff2-variations'', ''opentype-variations'',
                    ''truetype-variations''] else [])"

definition sources_then ::
  "fatal + gfxFontFaceSrc list \<Rightarrow> (gfxFontFaceSrc list \<Rightarrow> fatal + gfxFontFaceSrc list)
    \<Rightarrow> fatal + gfxFontFaceSrc list" where
  "sources_then r k = (case r of Inl e \<Rightarrow> Inl e | Inr srcs \<Rightarrow> k srcs)"

fun trailing_hints :: "StyleFontFaceSourceListComponent list \<Rightarrow> bool" where
  "trailing_hints [] = True"
| "trailing_hints [FormatHintKeyword k] = True"
| "trailing_hints [FormatHintString v] = True"
| "trailing_hints [TechFlags t] = True"
| "trailing_hints [FormatHintKeyword k, TechFlags t] = True"
| "trailing_hints [FormatHintString v, TechFlags t] = True"
| "trailing_hints cs = False"

text \<open>Two URL components for the examples: one that resolves, one that does not.\<close>

definition good_url :: StyleCssUrl where
  "good_url = \<lparr> GetURI = Some ''https://example.org/a.woff2'', ReferrerInfo = 1, Principal = 2 \<rparr>"

definition bad_url :: StyleCssUrl where
  "bad_url = \<lparr> GetURI = None, ReferrerInfo = 1, Principal = 2 \<rparr>"

section \<open>Faces, resource entries and the face set\<close>

datatype StyleFontDisplay = Auto | Block | Swap | Fallback | Optional

text \<open>
  A \<^verbatim>\<open>gfxCharacterMap\<close> is a set of code points; the model keeps the inclusive ranges of
  the \<^verbatim>\<open>unicode-range\<close> descriptor it was compiled from.
\<close>

type_synonym gfxCharacterMap = "(nat \<times> nat) list"

datatype FontFaceLoadStatus = Face_Unloaded | Face_Loading | Face_Loaded | Face_Error

datatype FontFaceSetLoadStatus = Loading | Loaded

text \<open>
  A \<^verbatim>\<open>FontFaceImpl\<close>, by the accessors this file calls.  Objects are named by their address,
  a \<open>nat\<close>; a null pointer or an empty \<^verbatim>\<open>Maybe\<close> is \<open>None\<close>.  \<open>mInFontFaceSet\<close> is what
  \<^verbatim>\<open>IsInFontFaceSet(this)\<close> reads, and \<open>mBufferSource\<close> what \<^verbatim>\<open>HasFontData\<close> tests and
  \<^verbatim>\<open>TakeBufferSource\<close> moves out.
\<close>

record 's FontFaceImpl =
  HasRule :: bool
  mInFontFaceSet :: bool
  Status :: FontFaceLoadStatus
  GetOwner :: "nat option"
  GetUserFontEntry :: "nat option"
  GetFamilyName :: "string option"
  GetFontWeight :: "(float \<times> float) option"
  GetFontStretch :: "('s \<times> 's) option"
  GetFontStyle :: "StyleComputedFontStyleDescriptor option"
  GetFontDisplay :: "StyleFontDisplay option"
  GetAscentOverride :: "float option"
  GetDescentOverride :: "float option"
  GetLineGapOverride :: "float option"
  GetSizeAdjust :: "float option"
  GetFontFeatureSettings :: "(nat \<times> nat) list"
  GetFontVariationSettings :: "(nat \<times> float) list"
  GetFontLanguageOverride :: "32 word option"
  GetUnicodeRangeAsCharacterMap :: "gfxCharacterMap option"
  mBufferSource :: "nat option"
  GetSources :: "StyleFontFaceSourceListComponent list"

text \<open>
  The thirteen attributes that \<^verbatim>\<open>FindOrCreateUserFontEntryFromFontFace\<close> computes and
  hands, always together, to \<^verbatim>\<open>UpdateAttributes\<close>, \<^verbatim>\<open>FindOrCreateUserFontEntry\<close> and
  \<^verbatim>\<open>CreateUserFontEntry\<close>, under the parameter names of the latter.
\<close>

record ('w, 's, 'i) attributes =
  aWeight :: "'w \<times> 'w"
  aStretch :: "'s \<times> 's"
  aStyle :: "'i \<times> 'i"
  aFeatureSettings :: "(nat \<times> nat) list"
  aVariationSettings :: "(nat \<times> float) list"
  aLanguageOverride :: "32 word"
  aUnicodeRanges :: "gfxCharacterMap option"
  aFontDisplay :: StyleFontDisplay
  aRangeFlags :: RangeFlags
  aAscentOverride :: float
  aDescentOverride :: float
  aLineGapOverride :: float
  aSizeAdjust :: float

text \<open>
  Modelled from the spec: the class \<^verbatim>\<open>gfxUserFontEntry\<close> (and its subclass
  \<^verbatim>\<open>FontFaceImpl::Entry\<close>) is declared outside the sources.  The spec gives a resource entry
  a normalized attribute set, an ordered source list and a mutable family name;
  \<open>mFontFaces\<close> are the faces that own the entry.
\<close>

record ('w, 's, 'i) gfxUserFontEntry =
  mAttributes :: "('w, 's, 'i) attributes"
  mSrcList :: "gfxFontFaceSrc list"
  mFamilyName :: string
  mFontFaces :: "nat list"

record FontFaceRecord =
  mFontFace :: nat
  mOrigin :: "StyleOrigin option"

text \<open>
  Modelled from the spec: the owning \<^verbatim>\<open>FontFaceSet\<close> is outside the sources.  The
  coordinator needs its "is pending" query and its two notifications, which are recorded
  in the order they are delivered.
\<close>

datatype notification = loading_started | loading_finished

record FontFaceSet =
  ready_promise_pending :: bool
  notifications :: "notification list"

text \<open>A runnable handed to \<^verbatim>\<open>DispatchToOwningThread\<close> or to the post-traversal tasks.\<close>

datatype runnable =
  Run_OnLoadingStarted | Run_OnLoadingFinished | Run_CheckLoadingFinishedAfterDelay

text \<open>
  The \<^verbatim>\<open>FontFaceSetImpl\<close> object together with the objects it reaches: the faces and the
  resource entries by address, and the families of the \<^verbatim>\<open>gfxUserFontSet\<close> it derives from
  (a family is the list of its entries, the spec's "mapping from family name to an
  ordered collection of resource entries").  \<open>entries_allocated\<close> counts the entries
  constructed so far; \<open>userFontSetDirty\<close> is what \<^verbatim>\<open>MarkUserFontSetDirty\<close> marks;
  \<open>IsOnOwningThread\<close> is the thread the current call runs on.
\<close>

record ('w, 's, 'i) FontFaceSetImpl =
  faces :: "nat \<Rightarrow> 's FontFaceImpl"
  entries :: "nat \<Rightarrow> ('w, 's, 'i) gfxUserFontEntry"
  entries_allocated :: nat
  mFontFamilies :: "string \<rightharpoonup> nat list"
  mNonRuleFaces :: "FontFaceRecord list"
  mStatus :: FontFaceSetLoadStatus
  mNonRuleFacesDirty :: bool
  mHasLoadingFontFaces :: bool
  mHasLoadingFontFacesIsDirty :: bool
  mDelayedLoadCheck :: bool
  userFontSetDirty :: bool
  mOwner :: "FontFaceSet option"
  IsOnOwningThread :: bool
  dispatched :: "runnable list"

subsection \<open>Resolving a face to a resource entry\<close>

text \<open>
  \<^verbatim>\<open>NO_FONT_LANGUAGE_OVERRIDE\<close> is defined outside the sources; it is the default of the
  language override and nothing below depends on its value.
\<close>

definition NO_FONT_LANGUAGE_OVERRIDE :: "32 word" where
  "NO_FONT_LANGUAGE_OVERRIDE = 0"

text \<open>
  Lines 397 to 454 of the source: the defaults, the three range resolvers threading
  \<open>rangeFlags\<close> from \<open>eNoFlags\<close>, and the optional descriptors.  The slant resolver's
  fatal outcome is passed on.
\<close>

definition descriptor_attributes ::
  "('w, 's, 'i) FontPropertyTypes \<Rightarrow> 's FontFaceImpl \<Rightarrow> fatal + ('w, 's, 'i) attributes" where
  "descriptor_attributes T aFontFace =
     (let r0 = eNoFlags;
          w = GetWeightRangeForDescriptor T (GetFontWeight aFontFace) r0;
          s = GetStretchRangeForDescriptor T (GetFontStretch aFontFace) (snd w);
          i = GetStyleRangeForDescriptor T (GetFontStyle aFontFace) (snd s)
      in case fst i of
           Inl e \<Rightarrow> Inl e
         | Inr style \<Rightarrow>
             Inr \<lparr> aWeight = fst w, aStretch = fst s, aStyle = style,
                   aFeatureSettings = GetFontFeatureSettings aFontFace,
                   aVariationSettings = GetFontVariationSettings aFontFace,
                   aLanguageOverride =
                     (case GetFontLanguageOverride aFontFace of
                        None \<Rightarrow> NO_FONT_LANGUAGE_OVERRIDE
                      | Some d \<Rightarrow> d),
                   aUnicodeRanges = GetUnicodeRangeAsCharacterMap aFontFace,
                   aFontDisplay =
                     (case GetFontDisplay aFontFace of None \<Rightarrow> Auto | Some d \<Rightarrow> d),
                   aRangeFlags = snd i,
                   aAscentOverride =
                     (case GetAscentOverride aFontFace of None \<Rightarrow> - 1 | Some p \<Rightarrow> p),
                   aDescentOverride =
                     (case GetDescentOverride aFontFace of None \<Rightarrow> - 1 | Some p \<Rightarrow> p),
                   aLineGapOverride =
                     (case GetLineGapOverride aFontFace of None \<Rightarrow> - 1 | Some p \<Rightarrow> p),
                   aSizeAdjust =
                     (case GetSizeAdjust aFontFace of None \<Rightarrow> 1 | Some p \<Rightarrow> p) \<rparr>)"

text \<open>
  Modelled from the spec: \<^verbatim>\<open>gfxUserFontEntry::UpdateAttributes\<close>, "in-place update means
  the entry's fields are overwritten".
\<close>

definition UpdateAttributes ::
  "('w, 's, 'i) attributes \<Rightarrow> ('w, 's, 'i) gfxUserFontEntry \<Rightarrow> ('w, 's, 'i) gfxUserFontEntry" where
  "UpdateAttributes a entry = entry\<lparr>mAttributes := a\<rparr>"

text \<open>
  Modelled from the spec: \<^verbatim>\<open>gfxUserFontSet::LookupFamily\<close>, the family stored under the
  name ("case-sensitive string key as declared"), and \<^verbatim>\<open>gfxUserFontFamily::RemoveFontEntry\<close>,
  after which the entry is no longer in that family.
\<close>

definition LookupFamily :: "('w, 's, 'i) FontFaceSetImpl \<Rightarrow> string \<Rightarrow> nat list option" where
  "LookupFamily fs aFamilyName = mFontFamilies fs aFamilyName"

definition RemoveFontEntry ::
  "string \<Rightarrow> nat \<Rightarrow> ('w, 's, 'i) FontFaceSetImpl \<Rightarrow> ('w, 's, 'i) FontFaceSetImpl" where
  "RemoveFontEntry family aFontEntry fs =
     (case mFontFamilies fs family of
        None \<Rightarrow> fs
      | Some mAvailableFonts \<Rightarrow>
          fs\<lparr>mFontFamilies := (mFontFamilies fs)(family \<mapsto> removeAll aFontEntry mAvailableFonts)\<rparr>)"


text \<open>
  The source array of lines 478 to 623: one buffer source when the face has font data
  (which \<^verbatim>\<open>TakeBufferSource\<close> moves out of the face), and the component loop otherwise.
  The array is infallible, so the test of \<^verbatim>\<open>AppendElement\<close>'s result for null never
  fires and has no branch here.
\<close>

definition build_src_array ::
  "StyleOrigin \<Rightarrow> bool \<Rightarrow> nat \<Rightarrow> ('w, 's, 'i) FontFaceSetImpl
    \<Rightarrow> fatal + (gfxFontFaceSrc list \<times> ('w, 's, 'i) FontFaceSetImpl)" where
  "build_src_array aOrigin fv aFontFace fs =
     (let f = faces fs aFontFace
      in if mBufferSource f \<noteq> None
         then Inr ([(new_src eSourceType_Buffer)\<lparr>mBuffer := mBufferSource f\<rparr>],
                   fs\<lparr>faces := (faces fs)(aFontFace := f\<lparr>mBufferSource := None\<rparr>)\<rparr>)
         else (case build_sources aOrigin fv (GetSources f) 0 [] of
                 Inl e \<Rightarrow> Inl e
               | Inr srcArray \<Rightarrow> Inr (srcArray, fs)))"

text \<open>
  The branch taken when the face already has a user font entry (lines 456 to 476).
\<close>

definition update_existing_entry ::
  "string \<Rightarrow> ('w, 's, 'i) attributes \<Rightarrow> nat \<Rightarrow> ('w, 's, 'i) FontFaceSetImpl
    \<Rightarrow> ('w, 's, 'i) FontFaceSetImpl" where
  "update_existing_entry aFamilyName a existingEntry fs =
     (let set1 = fs\<lparr>entries := (entries fs)
                       (existingEntry := UpdateAttributes a (entries fs existingEntry))\<rparr>;
          name = mFamilyName (entries set1 existingEntry)
      in if name \<noteq> [] \<and> name \<noteq> aFamilyName
         then (let set2 = (case LookupFamily set1 name of
                             Some family \<Rightarrow> RemoveFontEntry name existingEntry set1
                           | None \<Rightarrow> set1)
               in set2\<lparr>entries := (entries set2)
                          (existingEntry := (entries set2 existingEntry)\<lparr>mFamilyName := []\<rparr>)\<rparr>)
         else set1)"

text \<open>
  \<^verbatim>\<open>FindOrCreateUserFontEntryFromFontFace(aFamilyName, aFontFace, aOrigin)\<close>.  The set is the
  face's primary set.  \<^verbatim>\<open>gfxUserFontSet::FindOrCreateUserFontEntry\<close> is outside the sources
  and is the parameter \<open>find_or_create\<close>.  The result is the entry returned (\<open>None\<close> for
  \<^verbatim>\<open>nullptr\<close>) and the state.
\<close>

definition FindOrCreateUserFontEntryFromFontFace ::
  "('w, 's, 'i) FontPropertyTypes \<Rightarrow> bool
    \<Rightarrow> (string \<Rightarrow> gfxFontFaceSrc list \<Rightarrow> ('w, 's, 'i) attributes \<Rightarrow> ('w, 's, 'i) FontFaceSetImpl
         \<Rightarrow> nat option \<times> ('w, 's, 'i) FontFaceSetImpl)
    \<Rightarrow> string \<Rightarrow> nat \<Rightarrow> StyleOrigin \<Rightarrow> ('w, 's, 'i) FontFaceSetImpl
    \<Rightarrow> fatal + (nat option \<times> ('w, 's, 'i) FontFaceSetImpl)" where
  "FindOrCreateUserFontEntryFromFontFace T fv find_or_create aFamilyName aFontFace aOrigin fs =
     (case descriptor_attributes T (faces fs aFontFace) of
        Inl e \<Rightarrow> Inl e
      | Inr a \<Rightarrow>
          (case GetUserFontEntry (faces fs aFontFace) of
             Some existingEntry \<Rightarrow>
               Inr (Some existingEntry, update_existing_entry aFamilyName a existingEntry fs)
           | None \<Rightarrow>
               (case build_src_array aOrigin fv aFontFace fs of
                  Inl e \<Rightarrow> Inl e
                | Inr (srcArray, set1) \<Rightarrow>
                    if srcArray = [] then Inr (None, set1)
                    else Inr (find_or_create aFamilyName srcArray a set1))))"

text \<open>The entries of a family, none when the family does not exist.\<close>

definition family_entries :: "('w, 's, 'i) FontFaceSetImpl \<Rightarrow> string \<Rightarrow> nat list" where
  "family_entries fs name = (case mFontFamilies fs name of None \<Rightarrow> [] | Some l \<Rightarrow> l)"

text \<open>
  The registry invariant: an entry is only in the family its stored name says, hence in
  at most one family.
\<close>

definition entry_in_stored_family :: "('w, 's, 'i) FontFaceSetImpl \<Rightarrow> bool" where
  "entry_in_stored_family fs =
     (\<forall>name e. e \<in> List.set (family_entries fs name) \<longrightarrow> mFamilyName (entries fs e) = name)"

text \<open>Resolving again, keeping the state (unchanged when the call is fatal).\<close>

definition re_resolve ::
  "('w, 's, 'i) FontPropertyTypes \<Rightarrow> bool
    \<Rightarrow> (string \<Rightarrow> gfxFontFaceSrc list \<Rightarrow> ('w, 's, 'i) attributes \<Rightarrow> ('w, 's, 'i) FontFaceSetImpl
         \<Rightarrow> nat option \<times> ('w, 's, 'i) FontFaceSetImpl)
    \<Rightarrow> string \<Rightarrow> nat \<Rightarrow> StyleOrigin \<Rightarrow> ('w, 's, 'i) FontFaceSetImpl
    \<Rightarrow> ('w, 's, 'i) FontFaceSetImpl" where
  "re_resolve T fv find_or_create aFamilyName aFontFace aOrigin fs =
     (case FindOrCreateUserFontEntryFromFontFace T fv find_or_create aFamilyName aFontFace
             aOrigin fs of
        Inl e \<Rightarrow> fs
      | Inr r \<Rightarrow> snd r)"

section \<open>The loading status coordinator\<close>

text \<open>
  \<^verbatim>\<open>UpdateHasLoadingFontFaces\<close> scans the non-rule face records and stops at the first face
  whose status is \<^verbatim>\<open>Loading\<close>.
\<close>

fun any_face_loading :: "(nat \<Rightarrow> 's FontFaceImpl) \<Rightarrow> FontFaceRecord list \<Rightarrow> bool" where
  "any_face_loading fcs [] = False"
| "any_face_loading fcs (r # rs) =
     (if Status (fcs (mFontFace r)) = Face_Loading then True else any_face_loading fcs rs)"

definition UpdateHasLoadingFontFaces ::
  "('w, 's, 'i) FontFaceSetImpl \<Rightarrow> ('w, 's, 'i) FontFaceSetImpl" where
  "UpdateHasLoadingFontFaces fs =
     fs\<lparr>mHasLoadingFontFacesIsDirty := False,
        mHasLoadingFontFaces := any_face_loading (faces fs) (mNonRuleFaces fs)\<rparr>"

definition HasLoadingFontFaces ::
  "('w, 's, 'i) FontFaceSetImpl \<Rightarrow> bool \<times> ('w, 's, 'i) FontFaceSetImpl" where
  "HasLoadingFontFaces fs =
     (let fs1 = (if mHasLoadingFontFacesIsDirty fs then UpdateHasLoadingFontFaces fs else fs)
      in (mHasLoadingFontFaces fs1, fs1))"

definition MightHavePendingFontLoads ::
  "('w, 's, 'i) FontFaceSetImpl \<Rightarrow> bool \<times> ('w, 's, 'i) FontFaceSetImpl" where
  "MightHavePendingFontLoads fs = HasLoadingFontFaces fs"

definition ReadyPromiseIsPending :: "('w, 's, 'i) FontFaceSetImpl \<Rightarrow> bool" where
  "ReadyPromiseIsPending fs =
     (case mOwner fs of None \<Rightarrow> False | Some owner \<Rightarrow> ready_promise_pending owner)"

text \<open>
  Modelled from the spec: the owner's \<^verbatim>\<open>DispatchLoadingEventAndReplaceReadyPromise\<close> and
  \<^verbatim>\<open>MaybeResolve\<close> are outside the sources.  The first delivers "loading started" and
  leaves a fresh, unresolved ready promise; the second delivers "loading finished" and
  resolves the promise.
\<close>

definition DispatchLoadingEventAndReplaceReadyPromise :: "FontFaceSet \<Rightarrow> FontFaceSet" where
  "DispatchLoadingEventAndReplaceReadyPromise owner =
     owner\<lparr>ready_promise_pending := True,
           notifications := notifications owner @ [loading_started]\<rparr>"

definition MaybeResolve :: "FontFaceSet \<Rightarrow> FontFaceSet" where
  "MaybeResolve owner =
     owner\<lparr>ready_promise_pending := False,
           notifications := notifications owner @ [loading_finished]\<rparr>"

definition OnLoadingStarted ::
  "('w, 's, 'i) FontFaceSetImpl \<Rightarrow> ('w, 's, 'i) FontFaceSetImpl" where
  "OnLoadingStarted fs =
     (case mOwner fs of
        None \<Rightarrow> fs
      | Some owner \<Rightarrow> fs\<lparr>mOwner := Some (DispatchLoadingEventAndReplaceReadyPromise owner)\<rparr>)"

definition OnLoadingFinished ::
  "('w, 's, 'i) FontFaceSetImpl \<Rightarrow> ('w, 's, 'i) FontFaceSetImpl" where
  "OnLoadingFinished fs =
     (case mOwner fs of
        None \<Rightarrow> fs
      | Some owner \<Rightarrow> fs\<lparr>mOwner := Some (MaybeResolve owner)\<rparr>)"

definition DispatchToOwningThread ::
  "runnable \<Rightarrow> ('w, 's, 'i) FontFaceSetImpl \<Rightarrow> ('w, 's, 'i) FontFaceSetImpl" where
  "DispatchToOwningThread r fs = fs\<lparr>dispatched := dispatched fs @ [r]\<rparr>"

definition CheckLoadingStarted ::
  "('w, 's, 'i) FontFaceSetImpl \<Rightarrow> ('w, 's, 'i) FontFaceSetImpl" where
  "CheckLoadingStarted fs =
     (let h = HasLoadingFontFaces fs; fs1 = snd h
      in if \<not> fst h then fs1
         else if mStatus fs1 = Loading then fs1
         else (let fs2 = fs1\<lparr>mStatus := Loading\<rparr>
               in if IsOnOwningThread fs2 then OnLoadingStarted fs2
                  else DispatchToOwningThread Run_OnLoadingStarted fs2))"

definition CheckLoadingFinished ::
  "('w, 's, 'i) FontFaceSetImpl \<Rightarrow> ('w, 's, 'i) FontFaceSetImpl" where
  "CheckLoadingFinished fs =
     (if mDelayedLoadCheck fs then fs
      else if \<not> ReadyPromiseIsPending fs then fs
      else (let h = MightHavePendingFontLoads fs; fs1 = snd h
            in if fst h then fs1
               else (let fs2 = fs1\<lparr>mStatus := Loaded\<rparr>
                     in if IsOnOwningThread fs2 then OnLoadingFinished fs2
                        else DispatchToOwningThread Run_OnLoadingFinished fs2)))"

definition CheckLoadingFinishedAfterDelay ::
  "('w, 's, 'i) FontFaceSetImpl \<Rightarrow> ('w, 's, 'i) FontFaceSetImpl" where
  "CheckLoadingFinishedAfterDelay fs = CheckLoadingFinished (fs\<lparr>mDelayedLoadCheck := False\<rparr>)"

text \<open>
  \<^verbatim>\<open>DispatchCheckLoadingFinishedAfterDelay\<close> hands the delayed check either to the
  post-traversal tasks of the style set or to the owning thread; in both cases it runs
  later, so the model queues it.
\<close>

definition DispatchCheckLoadingFinishedAfterDelay ::
  "('w, 's, 'i) FontFaceSetImpl \<Rightarrow> ('w, 's, 'i) FontFaceSetImpl" where
  "DispatchCheckLoadingFinishedAfterDelay fs =
     DispatchToOwningThread Run_CheckLoadingFinishedAfterDelay fs"

text \<open>
  \<^verbatim>\<open>OnFontFaceStatusChanged\<close> is called after the face's status has changed; its two
  assertions (the face is in the set, and a status that is not \<^verbatim>\<open>Loading\<close> is terminal) are
  debug-only checks of the caller.
\<close>

definition OnFontFaceStatusChanged ::
  "nat \<Rightarrow> ('w, 's, 'i) FontFaceSetImpl \<Rightarrow> ('w, 's, 'i) FontFaceSetImpl" where
  "OnFontFaceStatusChanged aFontFace fs =
     (let fs1 = fs\<lparr>mHasLoadingFontFacesIsDirty := True\<rparr>
      in if Status (faces fs1 aFontFace) = Face_Loading then CheckLoadingStarted fs1
         else if \<not> mDelayedLoadCheck fs1
              then DispatchCheckLoadingFinishedAfterDelay (fs1\<lparr>mDelayedLoadCheck := True\<rparr>)
              else fs1)"

text \<open>
  The cached "has loading faces" flag agrees with the faces unless its dirty bit is set.
\<close>

definition cache_coherent :: "('w, 's, 'i) FontFaceSetImpl \<Rightarrow> bool" where
  "cache_coherent fs =
     (mHasLoadingFontFacesIsDirty fs
      \<or> mHasLoadingFontFaces fs = any_face_loading (faces fs) (mNonRuleFaces fs))"

section \<open>Adding, deleting and clearing faces\<close>

datatype ErrorResult = InvalidStateError | SyntaxError | InvalidModificationError

text \<open>
  Modelled from the spec: \<^verbatim>\<open>FontFaceImpl::IsInFontFaceSet\<close>, \<^verbatim>\<open>AddFontFaceSet\<close> and
  \<^verbatim>\<open>RemoveFontFaceSet\<close> are outside the sources; they read, set and clear the face's
  membership in this set.
\<close>

definition IsInFontFaceSet :: "('w, 's, 'i) FontFaceSetImpl \<Rightarrow> nat \<Rightarrow> bool" where
  "IsInFontFaceSet fs aFontFace = mInFontFaceSet (faces fs aFontFace)"

definition AddFontFaceSet ::
  "nat \<Rightarrow> ('w, 's, 'i) FontFaceSetImpl \<Rightarrow> ('w, 's, 'i) FontFaceSetImpl" where
  "AddFontFaceSet aFontFace fs =
     fs\<lparr>faces := (faces fs)(aFontFace := (faces fs aFontFace)\<lparr>mInFontFaceSet := True\<rparr>)\<rparr>"

definition RemoveFontFaceSet ::
  "nat \<Rightarrow> ('w, 's, 'i) FontFaceSetImpl \<Rightarrow> ('w, 's, 'i) FontFaceSetImpl" where
  "RemoveFontFaceSet aFontFace fs =
     fs\<lparr>faces := (faces fs)(aFontFace := (faces fs aFontFace)\<lparr>mInFontFaceSet := False\<rparr>)\<rparr>"

definition MarkUserFontSetDirty ::
  "('w, 's, 'i) FontFaceSetImpl \<Rightarrow> ('w, 's, 'i) FontFaceSetImpl" where
  "MarkUserFontSetDirty fs = fs\<lparr>userFontSetDirty := True\<rparr>"

text \<open>
  \<^verbatim>\<open>FlushUserFontSet\<close> is implemented outside the sources; every operation below takes it as
  its first parameter \<open>flush\<close> and runs it first, as the source does.

  \<^verbatim>\<open>Add\<close> returns its boolean, the error thrown into \<^verbatim>\<open>aRv\<close> (if any) and the state.  The
  loop under \<^verbatim>\<open>#ifdef DEBUG\<close> only asserts that no record names the face yet; it is the
  invariant \<open>records_in_set\<close> below.
\<close>

definition Add ::
  "(('w, 's, 'i) FontFaceSetImpl \<Rightarrow> ('w, 's, 'i) FontFaceSetImpl) \<Rightarrow> nat
    \<Rightarrow> ('w, 's, 'i) FontFaceSetImpl \<Rightarrow> bool \<times> ErrorResult option \<times> ('w, 's, 'i) FontFaceSetImpl" where
  "Add flush aFontFace fs0 =
     (let fs = flush fs0
      in if IsInFontFaceSet fs aFontFace then (False, None, fs)
         else if HasRule (faces fs aFontFace) then (False, Some InvalidModificationError, fs)
         else (let fs1 = AddFontFaceSet aFontFace fs;
                   fs2 = fs1\<lparr>mNonRuleFaces :=
                                mNonRuleFaces fs1 @ [\<lparr>mFontFace = aFontFace, mOrigin = None\<rparr>]\<rparr>;
                   fs3 = fs2\<lparr>mNonRuleFacesDirty := True\<rparr>;
                   fs4 = MarkUserFontSetDirty fs3;
                   fs5 = fs4\<lparr>mHasLoadingFontFacesIsDirty := True\<rparr>
               in (True, None, CheckLoadingStarted fs5)))"

text \<open>The loop of \<^verbatim>\<open>Clear\<close>: every recorded face leaves the set.\<close>

fun remove_all_from_set ::
  "FontFaceRecord list \<Rightarrow> ('w, 's, 'i) FontFaceSetImpl \<Rightarrow> ('w, 's, 'i) FontFaceSetImpl" where
  "remove_all_from_set [] fs = fs"
| "remove_all_from_set (r # rs) fs = remove_all_from_set rs (RemoveFontFaceSet (mFontFace r) fs)"

definition Clear ::
  "(('w, 's, 'i) FontFaceSetImpl \<Rightarrow> ('w, 's, 'i) FontFaceSetImpl)
    \<Rightarrow> ('w, 's, 'i) FontFaceSetImpl \<Rightarrow> ('w, 's, 'i) FontFaceSetImpl" where
  "Clear flush fs0 =
     (let fs = flush fs0
      in if mNonRuleFaces fs = [] then fs
         else (let fs1 = remove_all_from_set (mNonRuleFaces fs) fs;
                   fs2 = fs1\<lparr>mNonRuleFaces := []\<rparr>;
                   fs3 = fs2\<lparr>mNonRuleFacesDirty := True\<rparr>;
                   fs4 = MarkUserFontSetDirty fs3;
                   fs5 = fs4\<lparr>mHasLoadingFontFacesIsDirty := True\<rparr>
               in CheckLoadingFinished fs5))"

text \<open>
  The loop of \<^verbatim>\<open>Delete\<close>: the first record of the face is removed; \<open>None\<close> when there is
  none (\<^verbatim>\<open>removed\<close> stays false).
\<close>

fun remove_first_record :: "nat \<Rightarrow> FontFaceRecord list \<Rightarrow> FontFaceRecord list option" where
  "remove_first_record aFontFace [] = None"
| "remove_first_record aFontFace (r # rs) =
     (if mFontFace r = aFontFace then Some rs
      else (case remove_first_record aFontFace rs of
              None \<Rightarrow> None
            | Some rs' \<Rightarrow> Some (r # rs')))"




subsection \<open>Folding the recorded faces into the registry\<close>







section \<open>Matching faces against a shorthand and a text\<close>


record ('w, 's, 'i) gfxFontStyle =
  style :: 'i
  weight :: 'w
  stretch :: 's











section \<open>Loading font data synchronously\<close>

datatype nsresult =
  NS_OK | NS_SUCCESS_OTHER nat
  | NS_ERROR_FAILURE | NS_ERROR_FILE_TOO_BIG | NS_ERROR_OUT_OF_MEMORY | NS_ERROR_OTHER nat

fun NS_SUCCEEDED :: "nsresult \<Rightarrow> bool" where
  "NS_SUCCEEDED NS_OK = True"
| "NS_SUCCEEDED (NS_SUCCESS_OTHER n) = True"
| "NS_SUCCEEDED r = False"

definition NS_FAILED :: "nsresult \<Rightarrow> bool" where
  "NS_FAILED r = (\<not> NS_SUCCEEDED r)"

text \<open>
  What the channel, the stream and the allocator answer: the results of creating and
  opening the channel, of \<^verbatim>\<open>Available\<close> with the length it reports, of \<^verbatim>\<open>malloc\<close> for a size,
  of the successive calls of \<^verbatim>\<open>Read\<close> (result and \<open>numRead\<close>; a stream whose answers are
  used up is at its end and answers \<open>NS_OK\<close> with 0 bytes), and of \<^verbatim>\<open>GetContentType\<close>.
\<close>

record sync_load_env =
  CreateChannelForSyncLoadFontData :: nsresult
  Open :: nsresult
  Available :: "nsresult \<times> 64 word"
  malloc :: "nat \<Rightarrow> nat option"
  Read :: "(nsresult \<times> 32 word) list"
  GetContentType :: nsresult

text \<open>
  The two reference parameters as the caller finds them after the call, the result code,
  the pointer \<^verbatim>\<open>malloc\<close> was asked for (if it was called) and the pointer freed (if any).
\<close>

record sync_load_result =
  rv :: nsresult
  aBuffer :: "nat option"
  aBufferLength :: "32 word"
  malloc_called :: bool
  freed :: "nat option"

text \<open>
  The \<^verbatim>\<open>while\<close> loop, with \<open>len\<close> the value of \<^verbatim>\<open>aBufferLength\<close>: the result code it ends
  with and \<open>totalRead\<close>.
\<close>

fun read_loop :: "(nsresult \<times> 32 word) list \<Rightarrow> 32 word \<Rightarrow> 32 word \<Rightarrow> nsresult \<times> 32 word" where
  "read_loop [] len totalRead = (NS_OK, totalRead)"
| "read_loop ((r, numRead) # rest) len totalRead =
     (if NS_SUCCEEDED r \<and> numRead \<noteq> 0
      then (let totalRead' = totalRead + numRead
            in if totalRead' > len then (NS_ERROR_FAILURE, totalRead')
               else read_loop rest len totalRead')
      else (r, totalRead))"

definition early_return :: "nsresult \<Rightarrow> nat option \<Rightarrow> 32 word \<Rightarrow> sync_load_result" where
  "early_return r aBuffer0 aBufferLength0 =
     \<lparr> rv = r, aBuffer = aBuffer0, aBufferLength = aBufferLength0, malloc_called = False,
       freed = None \<rparr>"

definition SyncLoadFontData :: "sync_load_env \<Rightarrow> nat option \<Rightarrow> 32 word \<Rightarrow> sync_load_result" where
  "SyncLoadFontData env aBuffer0 aBufferLength0 =
     (if NS_FAILED (CreateChannelForSyncLoadFontData env)
      then early_return (CreateChannelForSyncLoadFontData env) aBuffer0 aBufferLength0
      else if NS_FAILED (Open env) then early_return (Open env) aBuffer0 aBufferLength0
      else if NS_FAILED (fst (Available env))
      then early_return (fst (Available env)) aBuffer0 aBufferLength0
      else (let bufferLength64 = snd (Available env)
            in if bufferLength64 = 0 then early_return NS_ERROR_FAILURE aBuffer0 aBufferLength0
               else if bufferLength64 > 0xFFFFFFFF
               then early_return NS_ERROR_FILE_TOO_BIG aBuffer0 aBufferLength0
               else (let len = (ucast bufferLength64 :: 32 word)
                     in case malloc env (unat len) of
                          None \<Rightarrow>
                            \<lparr> rv = NS_ERROR_OUT_OF_MEMORY, aBuffer = None, aBufferLength = 0,
                              malloc_called = True, freed = None \<rparr>
                        | Some p \<Rightarrow>
                            (let l = read_loop (Read env) len 0;
                                 r1 = (if NS_SUCCEEDED (fst l) then GetContentType env else fst l);
                                 len1 = (if NS_SUCCEEDED (fst l) then snd l else len)
                             in if NS_FAILED r1
                                then \<lparr> rv = r1, aBuffer = None, aBufferLength = 0,
                                       malloc_called = True, freed = Some p \<rparr>
                                else \<lparr> rv = NS_OK, aBuffer = Some p, aBufferLength = len1,
                                       malloc_called = True, freed = None \<rparr>))))"

text \<open>
  For the theorems on \<^verbatim>\<open>SyncLoadFontData\<close>: the call gets as far as testing the length, and
  seven behaviours of the channel, the stream and the allocator.
\<close>

definition reaches_length_check :: "sync_load_env \<Rightarrow> bool" where
  "reaches_length_check env =
     (NS_SUCCEEDED (CreateChannelForSyncLoadFontData env) \<and> NS_SUCCEEDED (Open env)
      \<and> NS_SUCCEEDED (fst (Available env)))"

definition env_channel_fails :: sync_load_env where
  "env_channel_fails =
     \<lparr> CreateChannelForSyncLoadFontData = NS_ERROR_OTHER 1, Open = NS_OK,
       Available = (NS_OK, 4), malloc = (\<lambda>n. Some 4096), Read = [(NS_OK, 4)],
       GetContentType = NS_OK \<rparr>"

definition env_empty :: sync_load_env where
  "env_empty = env_channel_fails\<lparr>CreateChannelForSyncLoadFontData := NS_OK, Available := (NS_OK, 0)\<rparr>"

definition env_too_big :: sync_load_env where
  "env_too_big = env_empty\<lparr>Available := (NS_OK, 0x100000000)\<rparr>"

definition env_no_memory :: sync_load_env where
  "env_no_memory = env_empty\<lparr>Available := (NS_OK, 4), malloc := (\<lambda>n. None)\<rparr>"

definition env_read_fails :: sync_load_env where
  "env_read_fails = env_empty\<lparr>Available := (NS_OK, 4), Read := [(NS_OK, 2), (NS_ERROR_OTHER 7, 0)]\<rparr>"

definition env_over_read :: sync_load_env where
  "env_over_read = env_empty\<lparr>Available := (NS_OK, 4), Read := [(NS_OK, 3), (NS_OK, 2)]\<rparr>"

definition env_loads :: sync_load_env where
  "env_loads = env_empty\<lparr>Available := (NS_OK, 4), Read := [(NS_OK, 3), (NS_OK, 1)]\<rparr>"

text \<open>
  The guard of line 467: the entry has a stored family name and it is not the new one.
\<close>

definition family_changes :: "('w, 's, 'i) FontFaceSetImpl \<Rightarrow> nat \<Rightarrow> string \<Rightarrow> bool" where
  "family_changes fs e aFamilyName =
     (mFamilyName (entries fs e) \<noteq> [] \<and> mFamilyName (entries fs e) \<noteq> aFamilyName)"

text \<open>
  An example state: face 0 is a non-rule face of the set, owns entry 0 and
  is recorded; entry 0 covers U+0041 to U+005A at weight 400 and is stored in family "A".
  Face 2 is a loading non-rule face that is not a member yet, face 3 is rule-derived and
  a member of the set, and every other address holds a rule-derived face that is not a
  member.
\<close>

definition example_types :: "(nat, nat, nat) FontPropertyTypes" where
  "example_types =
     \<lparr> FontWeight_NORMAL = 400, FontWeight_FromFloat = (\<lambda>f. nat \<lfloor>f\<rfloor>),
       FontStretch_NORMAL = 100, FontSlantStyle_NORMAL = 0, FontSlantStyle_ITALIC = 1,
       FontSlantStyle_FromFloat = (\<lambda>f. nat \<lfloor>f\<rfloor> + 2) \<rparr>"

definition example_face :: "nat FontFaceImpl" where
  "example_face =
     \<lparr> HasRule = False, mInFontFaceSet = True, Status = Face_Loaded, GetOwner = Some 7,
       GetUserFontEntry = Some 0, GetFamilyName = Some ''A'', GetFontWeight = Some (400, 400),
       GetFontStretch = None, GetFontStyle = None, GetFontDisplay = None,
       GetAscentOverride = None, GetDescentOverride = None, GetLineGapOverride = None,
       GetSizeAdjust = None, GetFontFeatureSettings = [], GetFontVariationSettings = [],
       GetFontLanguageOverride = None, GetUnicodeRangeAsCharacterMap = Some [(0x41, 0x5A)],
       mBufferSource = None, GetSources = [Url good_url, FormatHintKeyword Woff2] \<rparr>"

definition example_rule_face :: "nat FontFaceImpl" where
  "example_rule_face = example_face\<lparr>HasRule := True, GetOwner := Some 8, GetUserFontEntry := None\<rparr>"

definition example_new_face :: "nat FontFaceImpl" where
  "example_new_face =
     example_face\<lparr>mInFontFaceSet := False, Status := Face_Loading, GetOwner := Some 9,
       GetUserFontEntry := None\<rparr>"

definition example_attributes :: "(nat, nat, nat) attributes" where
  "example_attributes =
     \<lparr> aWeight = (400, 400), aStretch = (100, 100), aStyle = (0, 0), aFeatureSettings = [],
       aVariationSettings = [], aLanguageOverride = 0, aUnicodeRanges = Some [(0x41, 0x5A)],
       aFontDisplay = Auto, aRangeFlags = eAutoStretch OR eAutoSlantStyle,
       aAscentOverride = - 1, aDescentOverride = - 1, aLineGapOverride = - 1,
       aSizeAdjust = 1 \<rparr>"

definition example_entry :: "(nat, nat, nat) gfxUserFontEntry" where
  "example_entry =
     \<lparr> mAttributes = example_attributes,
       mSrcList = [(url_src Author good_url)\<lparr>mFormatHint := Woff2\<rparr>],
       mFamilyName = ''A'', mFontFaces = [0] \<rparr>"

definition example_set :: "(nat, nat, nat) FontFaceSetImpl" where
  "example_set =
     \<lparr> faces = (\<lambda>f. if f = 0 then example_face
                    else if f = 2 then example_new_face
                    else if f = 3 then example_rule_face
                    else example_rule_face\<lparr>mInFontFaceSet := False\<rparr>),
       entries = (\<lambda>e. example_entry), entries_allocated = 1,
       mFontFamilies = [''A'' \<mapsto> [0]],
       mNonRuleFaces = [\<lparr>mFontFace = 0, mOrigin = None\<rparr>], mStatus = Loaded,
       mNonRuleFacesDirty = False, mHasLoadingFontFaces = False,
       mHasLoadingFontFacesIsDirty = False, mDelayedLoadCheck = False,
       userFontSetDirty = False,
       mOwner = Some \<lparr>ready_promise_pending = False, notifications = []\<rparr>,
       IsOnOwningThread = True, dispatched = [] \<rparr>"

definition no_find_or_create ::
  "string \<Rightarrow> gfxFontFaceSrc list \<Rightarrow> (nat, nat, nat) attributes \<Rightarrow> (nat, nat, nat) FontFaceSetImpl
    \<Rightarrow> nat option \<times> (nat, nat, nat) FontFaceSetImpl" where
  "no_find_or_create aFamilyName srcArray a fs = (None, fs)"

text \<open>
  The state \<^verbatim>\<open>Add\<close>, \<^verbatim>\<open>Delete\<close> and \<^verbatim>\<open>Clear\<close> have built when they call the loading check:
  the membership changed, the record list changed, and the three dirty marks set.
\<close>

definition add_prepared ::
  "nat \<Rightarrow> ('w, 's, 'i) FontFaceSetImpl \<Rightarrow> ('w, 's, 'i) FontFaceSetImpl" where
  "add_prepared aFontFace fs =
     (AddFontFaceSet aFontFace fs)
       \<lparr>mNonRuleFaces := mNonRuleFaces fs @ [\<lparr>mFontFace = aFontFace, mOrigin = None\<rparr>],
        mNonRuleFacesDirty := True, userFontSetDirty := True,
        mHasLoadingFontFacesIsDirty := True\<rparr>"


definition clear_prepared :: "('w, 's, 'i) FontFaceSetImpl \<Rightarrow> ('w, 's, 'i) FontFaceSetImpl" where
  "clear_prepared fs =
     (remove_all_from_set (mNonRuleFaces fs) fs)
       \<lparr>mNonRuleFaces := [], mNonRuleFacesDirty := True, userFontSetDirty := True,
        mHasLoadingFontFacesIsDirty := True\<rparr>"

text \<open>
  Two more example states: one in which every face is loading and the cached flag is
  dirty, and one that is loading with a pending ready promise and no face loading.
\<close>

definition example_loading_set :: "(nat, nat, nat) FontFaceSetImpl" where
  "example_loading_set =
     example_set\<lparr>faces := (\<lambda>f. (faces example_set f)\<lparr>Status := Face_Loading\<rparr>),
       mHasLoadingFontFacesIsDirty := True\<rparr>"

definition example_finishing_set :: "(nat, nat, nat) FontFaceSetImpl" where
  "example_finishing_set =
     example_set\<lparr>mStatus := Loading,
       mOwner := Some \<lparr>ready_promise_pending = True, notifications = [loading_started]\<rparr>\<rparr>"








section \<open>Theorems\<close>

subsection \<open>The source list loop\<close>

lemma check_format_hint_index:
  "snd (check_format_hint fv cs i f) = i \<or> (snd (check_format_hint fv cs i f) = i + 1 \<and> i + 1 < length cs)"
  by (auto simp: check_format_hint_def split: StyleFontFaceSourceListComponent.splits)

lemma check_tech_flags_index:
  "snd (check_tech_flags cs i f) = i \<or> (snd (check_tech_flags cs i f) = i + 1 \<and> i + 1 < length cs)"
  by (auto simp: check_tech_flags_def split: StyleFontFaceSourceListComponent.splits)

lemma next_index:
  assumes "i < length cs"
  shows "i < snd (check_tech_flags cs (snd (check_format_hint fv cs i f)) g) + 1"
    and "snd (check_tech_flags cs (snd (check_format_hint fv cs i f)) g) + 1 \<le> length cs"
  using assms check_format_hint_index [of fv cs i f]
    check_tech_flags_index [of cs "snd (check_format_hint fv cs i f)" g]
  by auto

lemma build_sources_acc:
  "build_sources og fv cs i acc = sources_then (build_sources og fv cs i []) (\<lambda>r. Inr (acc @ r))"
proof (induction "length cs - i" arbitrary: i acc rule: less_induct)
  case less
  show ?case
  proof (cases "i < length cs")
    case False
    then show ?thesis
      by (simp add: build_sources.simps [of og fv cs i] sources_then_def)
  next
    case True
    show ?thesis
    proof (cases "cs ! i")
      case (Local a)
      have d: "length cs - (i + 1) < length cs - i" using True by simp
      show ?thesis
        using True Local less [OF d, of "acc @ [local_src a]"] less [OF d, of "[local_src a]"]
        by (simp add: build_sources.simps [of og fv cs i] sources_then_def split: sum.splits)
    next
      case (Url u)
      define r1 where "r1 = check_format_hint fv cs i (url_src og u)"
      define r2 where "r2 = check_tech_flags cs (snd r1) (fst r1)"
      have d: "length cs - (snd r2 + 1) < length cs - i"
        using next_index [OF True, of fv "url_src og u" "fst r1"] True
        by (simp add: r1_def r2_def)
      show ?thesis
        using True Url less [OF d, of "acc @ [fst r2]"] less [OF d, of "[fst r2]"]
          less [OF d, of "acc"]
        by (simp add: build_sources.simps [of og fv cs i] sources_then_def Let_def
              r1_def [symmetric] r2_def [symmetric] split: sum.splits)
    qed (use True in \<open>simp_all add: build_sources.simps [of og fv cs i] sources_then_def\<close>)
  qed
qed

lemma check_format_hint_shift:
  "check_format_hint fv (xs @ ys) (length xs + j) f =
     (fst (check_format_hint fv ys j f), length xs + snd (check_format_hint fv ys j f))"
  by (simp add: check_format_hint_def nth_append add.assoc
        split: StyleFontFaceSourceListComponent.splits)

lemma check_tech_flags_shift:
  "check_tech_flags (xs @ ys) (length xs + j) f =
     (fst (check_tech_flags ys j f), length xs + snd (check_tech_flags ys j f))"
  by (simp add: check_tech_flags_def nth_append add.assoc
        split: StyleFontFaceSourceListComponent.splits)

lemma build_sources_shift:
  "build_sources og fv (xs @ ys) (length xs + j) acc = build_sources og fv ys j acc"
proof (induction "length ys - j" arbitrary: j acc rule: less_induct)
  case less
  show ?case
  proof (cases "j < length ys")
    case False
    then show ?thesis
      by (simp add: build_sources.simps [of og fv "xs @ ys"] build_sources.simps [of og fv ys])
  next
    case True
    show ?thesis
    proof (cases "ys ! j")
      case (Local a)
      have d: "length ys - (j + 1) < length ys - j" using True by simp
      show ?thesis
        using True Local less [OF d, of "acc @ [local_src a]"]
        by (simp add: build_sources.simps [of og fv "xs @ ys" "length xs + j"]
              build_sources.simps [of og fv ys j] nth_append add.assoc)
    next
      case (Url u)
      define r1 where "r1 = check_format_hint fv ys j (url_src og u)"
      define r2 where "r2 = check_tech_flags ys (snd r1) (fst r1)"
      have d: "length ys - (snd r2 + 1) < length ys - j"
        using next_index [OF True, of fv "url_src og u" "fst r1"] True
        by (simp add: r1_def r2_def)
      show ?thesis
        using True Url less [OF d, of "acc @ [fst r2]"] less [OF d, of "acc"]
        by (simp add: build_sources.simps [of og fv "xs @ ys" "length xs + j"]
              build_sources.simps [of og fv ys j] nth_append Let_def
              check_format_hint_shift check_tech_flags_shift
              r1_def [symmetric] r2_def [symmetric] add.assoc)
    qed (use True in \<open>simp_all add: build_sources.simps [of og fv "xs @ ys" "length xs + j"]
              build_sources.simps [of og fv ys j] nth_append\<close>)
  qed
qed

lemma starts_source_nth:
  assumes "starts_source ys" "ys \<noteq> []"
  shows "(\<exists>a. ys ! 0 = Local a) \<or> (\<exists>u. ys ! 0 = Url u)"
  using assms
  by (auto simp: starts_source_def split: list.splits StyleFontFaceSourceListComponent.splits)

lemma check_format_hint_prefix:
  assumes "starts_source ys" "i < length xs"
  shows "check_format_hint fv (xs @ ys) i f = check_format_hint fv xs i f"
proof (cases "i + 1 < length xs")
  case True
  then show ?thesis by (simp add: check_format_hint_def nth_append)
next
  case False
  with assms have i: "i + 1 = length xs" by simp
  show ?thesis
  proof (cases "ys = []")
    case True
    then show ?thesis by simp
  next
    case False
    from starts_source_nth [OF assms(1) False] i False show ?thesis
      by (auto simp: check_format_hint_def nth_append)
  qed
qed

lemma check_tech_flags_prefix:
  assumes "starts_source ys" "i < length xs"
  shows "check_tech_flags (xs @ ys) i f = check_tech_flags xs i f"
proof (cases "i + 1 < length xs")
  case True
  then show ?thesis by (simp add: check_tech_flags_def nth_append)
next
  case False
  with assms have i: "i + 1 = length xs" by simp
  show ?thesis
  proof (cases "ys = []")
    case True
    then show ?thesis by simp
  next
    case False
    from starts_source_nth [OF assms(1) False] i False show ?thesis
      by (auto simp: check_tech_flags_def nth_append)
  qed
qed

lemma build_sources_prefix:
  assumes ys: "starts_source ys"
  shows "i \<le> length xs \<Longrightarrow>
    build_sources og fv (xs @ ys) i acc
      = sources_then (build_sources og fv xs i acc) (build_sources og fv ys 0)"
proof (induction "length xs - i" arbitrary: i acc rule: less_induct)
  case less
  show ?case
  proof (cases "i < length xs")
    case False
    with less.prems have "i = length xs" by simp
    then show ?thesis
      using build_sources_shift [of og fv xs ys 0 acc]
      by (simp add: build_sources.simps [of og fv xs] sources_then_def)
  next
    case True
    show ?thesis
    proof (cases "xs ! i")
      case (Local a)
      have d: "length xs - (i + 1) < length xs - i" using True by simp
      show ?thesis
        using True Local less.hyps [OF d, of "acc @ [local_src a]"]
        by (simp add: build_sources.simps [of og fv "xs @ ys" i]
              build_sources.simps [of og fv xs i] nth_append)
    next
      case (Url u)
      define r1 where "r1 = check_format_hint fv xs i (url_src og u)"
      define r2 where "r2 = check_tech_flags xs (snd r1) (fst r1)"
      have n: "i < snd r2 + 1" "snd r2 + 1 \<le> length xs"
        using next_index [OF True, of fv "url_src og u" "fst r1"]
        by (simp_all add: r1_def r2_def)
      have d: "length xs - (snd r2 + 1) < length xs - i"
        using n True by simp
      have r1lt: "snd r1 < length xs"
        using check_format_hint_index [of fv xs i "url_src og u"] True by (auto simp: r1_def)
      have e1: "check_format_hint fv (xs @ ys) i (url_src og u) = r1"
        unfolding r1_def by (rule check_format_hint_prefix [OF ys True])
      have e2: "check_tech_flags (xs @ ys) (snd r1) (fst r1) = r2"
        unfolding r2_def by (rule check_tech_flags_prefix [OF ys r1lt])
      show ?thesis
        using True Url less.hyps [OF d n(2), of "acc @ [fst r2]"] less.hyps [OF d n(2), of "acc"]
        by (simp add: build_sources.simps [of og fv "xs @ ys" i]
              build_sources.simps [of og fv xs i] nth_append Let_def e1 e2
              r1_def [symmetric] r2_def [symmetric])
    qed (use True in \<open>simp_all add: build_sources.simps [of og fv "xs @ ys" i]
              build_sources.simps [of og fv xs i] nth_append sources_then_def\<close>)
  qed
qed

lemma build_url_only:
  "build_sources og fv [Url u] 0 [] = Inr (if GetURI u = None then [] else [url_src og u])"
  by (simp add: build_sources.simps [of og fv "[Url u]"] check_format_hint_def
        check_tech_flags_def url_src_def Let_def)

lemma build_url_keyword:
  "build_sources og fv [Url u, FormatHintKeyword k] 0 [] =
     Inr (if GetURI u = None then [] else [(url_src og u)\<lparr>mFormatHint := k\<rparr>])"
  by (simp add: build_sources.simps [of og fv "[Url u, FormatHintKeyword k]"] check_format_hint_def
        check_tech_flags_def url_src_def Let_def)

lemma build_url_string:
  "build_sources og fv [Url u, FormatHintString v] 0 [] =
     Inr (if GetURI u = None then []
          else [(url_src og u)\<lparr>mFormatHint := format_hint_of_string fv v\<rparr>])"
  by (simp add: build_sources.simps [of og fv "[Url u, FormatHintString v]"] check_format_hint_def
        check_tech_flags_def url_src_def Let_def)

lemma format_hint_unknown:
  assumes "map ASCIIToLower v \<notin> set (recognized_format_strings fv)"
  shows "format_hint_of_string fv v = Unknown"
  using assms
  by (cases fv) (simp_all add: format_hint_of_string_def recognized_format_strings_def
        LowerCaseEqualsASCII_def)

lemma build_bad_url:
  assumes "trailing_hints hs" "GetURI bad = None"
  shows "build_sources og fv (Url bad # hs) 0 acc = Inr acc"
  using assms
  by (induction hs rule: trailing_hints.induct)
     (simp_all add: build_sources.simps check_format_hint_def check_tech_flags_def url_src_def
        Let_def)

lemma starts_source_simps:
  "starts_source []" "starts_source (Local a # cs)" "starts_source (Url u # cs)"
  by (simp_all add: starts_source_def)

subsection \<open>Range flags\<close>

lemma eAuto_bits:
  "eAutoWeight = 1" "eAutoStretch = 2" "eAutoSlantStyle = 4"
  by (simp_all add: eAutoWeight_def eAutoStretch_def eAutoSlantStyle_def)

lemma flag_tests:
  "(fl OR eAutoWeight) AND eAutoWeight = eAutoWeight"
  "(fl OR eAutoStretch) AND eAutoStretch = eAutoStretch"
  "(fl OR eAutoSlantStyle) AND eAutoSlantStyle = eAutoSlantStyle"
  by (simp_all add: word_ao_absorbs)

lemma flags_nonzero: "eAutoWeight \<noteq> 0" "eAutoStretch \<noteq> 0" "eAutoSlantStyle \<noteq> 0"
  by (simp_all add: eAuto_bits)

lemma style_switch_total: "style_switch T val \<noteq> None"
  by (cases val) (simp_all add: style_switch_def)

lemma style_range_present:
  "\<exists>r. GetStyleRangeForDescriptor T (Some v) f = (Inr r, f)"
  by (cases v) (simp_all add: GetStyleRangeForDescriptor_def style_switch_def)

lemma style_range_not_fatal:
  "\<exists>r. fst (GetStyleRangeForDescriptor T sl f) = Inr r"
proof (cases sl)
  case None
  then show ?thesis by (simp add: GetStyleRangeForDescriptor_def)
next
  case (Some v)
  with style_range_present [of T v f] show ?thesis by auto
qed

lemma style_range_flags:
  "snd (GetStyleRangeForDescriptor T sl f) = (if sl = None then f OR eAutoSlantStyle else f)"
proof (cases sl)
  case None
  then show ?thesis by (simp add: GetStyleRangeForDescriptor_def)
next
  case (Some v)
  with style_range_present [of T v f] show ?thesis by auto
qed

lemma descriptor_attributes_flags:
  "\<exists>a. descriptor_attributes T face = Inr a
     \<and> aRangeFlags a =
         (if GetFontWeight face = None then eAutoWeight else 0)
         OR (if GetFontStretch face = None then eAutoStretch else 0)
         OR (if GetFontStyle face = None then eAutoSlantStyle else 0)"
proof -
  define w where "w = GetWeightRangeForDescriptor T (GetFontWeight face) eNoFlags"
  define s where "s = GetStretchRangeForDescriptor T (GetFontStretch face) (snd w)"
  define i where "i = GetStyleRangeForDescriptor T (GetFontStyle face) (snd s)"
  obtain r where r: "fst i = Inr r"
    using style_range_not_fatal [of T "GetFontStyle face" "snd s"] unfolding i_def by blast
  have fw: "snd w = (if GetFontWeight face = None then eAutoWeight else 0)"
    by (cases "GetFontWeight face") (simp_all add: w_def GetWeightRangeForDescriptor_def eNoFlags_def)
  have fs: "snd s = snd w OR (if GetFontStretch face = None then eAutoStretch else 0)"
    by (cases "GetFontStretch face") (simp_all add: s_def GetStretchRangeForDescriptor_def)
  have fi: "snd i = snd s OR (if GetFontStyle face = None then eAutoSlantStyle else 0)"
    unfolding i_def by (simp add: style_range_flags)
  have "descriptor_attributes T face = Inr
     \<lparr> aWeight = fst w, aStretch = fst s, aStyle = r,
       aFeatureSettings = GetFontFeatureSettings face,
       aVariationSettings = GetFontVariationSettings face,
       aLanguageOverride =
         (case GetFontLanguageOverride face of None \<Rightarrow> NO_FONT_LANGUAGE_OVERRIDE | Some d \<Rightarrow> d),
       aUnicodeRanges = GetUnicodeRangeAsCharacterMap face,
       aFontDisplay = (case GetFontDisplay face of None \<Rightarrow> Auto | Some d \<Rightarrow> d),
       aRangeFlags = snd i,
       aAscentOverride = (case GetAscentOverride face of None \<Rightarrow> - 1 | Some p \<Rightarrow> p),
       aDescentOverride = (case GetDescentOverride face of None \<Rightarrow> - 1 | Some p \<Rightarrow> p),
       aLineGapOverride = (case GetLineGapOverride face of None \<Rightarrow> - 1 | Some p \<Rightarrow> p),
       aSizeAdjust = (case GetSizeAdjust face of None \<Rightarrow> 1 | Some p \<Rightarrow> p) \<rparr>"
    unfolding descriptor_attributes_def Let_def w_def [symmetric] s_def [symmetric]
      i_def [symmetric]
    by (simp only: r sum.case)
  moreover have "snd i = (if GetFontWeight face = None then eAutoWeight else 0)
         OR (if GetFontStretch face = None then eAutoStretch else 0)
         OR (if GetFontStyle face = None then eAutoSlantStyle else 0)"
    by (simp only: fi fs fw or.assoc)
  ultimately show ?thesis by simp
qed

lemma env_evals:
  "SyncLoadFontData env_empty None 0 = early_return NS_ERROR_FAILURE None 0"
  "SyncLoadFontData env_too_big None 0 = early_return NS_ERROR_FILE_TOO_BIG None 0"
  "SyncLoadFontData env_no_memory (Some 7) 5 =
     \<lparr> rv = NS_ERROR_OUT_OF_MEMORY, aBuffer = None, aBufferLength = 0, malloc_called = True,
       freed = None \<rparr>"
  "SyncLoadFontData env_read_fails (Some 7) 5 =
     \<lparr> rv = NS_ERROR_OTHER 7, aBuffer = None, aBufferLength = 0, malloc_called = True,
       freed = Some 4096 \<rparr>"
  "SyncLoadFontData env_over_read (Some 7) 5 =
     \<lparr> rv = NS_ERROR_FAILURE, aBuffer = None, aBufferLength = 0, malloc_called = True,
       freed = Some 4096 \<rparr>"
  "SyncLoadFontData env_loads (Some 7) 5 =
     \<lparr> rv = NS_OK, aBuffer = Some 4096, aBufferLength = 4, malloc_called = True,
       freed = None \<rparr>"
  by (simp_all add: SyncLoadFontData_def env_empty_def env_too_big_def env_no_memory_def
        env_read_fails_def env_over_read_def env_loads_def env_channel_fails_def NS_FAILED_def
        Let_def)

lemma style_range_kinds:
  "GetStyleRangeForDescriptor T (Some Normal) fl = (Inr (point_range (FontSlantStyle_NORMAL T)), fl)"
  "GetStyleRangeForDescriptor T (Some Italic) fl = (Inr (point_range (FontSlantStyle_ITALIC T)), fl)"
  "GetStyleRangeForDescriptor T (Some (Oblique a b)) fl
     = (Inr (FontSlantStyle_FromFloat T a, FontSlantStyle_FromFloat T b), fl)"
  by (simp_all add: GetStyleRangeForDescriptor_def style_switch_def)

lemma descriptor_attributes_ranges:
  "\<exists>att. descriptor_attributes T face = Inr att
     \<and> aWeight att = fst (GetWeightRangeForDescriptor T (GetFontWeight face) eNoFlags)
     \<and> aStretch att = fst (GetStretchRangeForDescriptor T (GetFontStretch face) 0)
     \<and> (\<exists>f2. Inr (aStyle att) = fst (GetStyleRangeForDescriptor T (GetFontStyle face) f2))"
proof -
  define w where "w = GetWeightRangeForDescriptor T (GetFontWeight face) eNoFlags"
  define s where "s = GetStretchRangeForDescriptor T (GetFontStretch face) (snd w)"
  define i where "i = GetStyleRangeForDescriptor T (GetFontStyle face) (snd s)"
  obtain r where r: "fst i = Inr r"
    using style_range_not_fatal [of T "GetFontStyle face" "snd s"] unfolding i_def by blast
  have st: "fst s = fst (GetStretchRangeForDescriptor T (GetFontStretch face) 0)"
    by (cases "GetFontStretch face") (simp_all add: s_def GetStretchRangeForDescriptor_def)
  have d: "descriptor_attributes T face = Inr
     \<lparr> aWeight = fst w, aStretch = fst s, aStyle = r,
       aFeatureSettings = GetFontFeatureSettings face,
       aVariationSettings = GetFontVariationSettings face,
       aLanguageOverride =
         (case GetFontLanguageOverride face of None \<Rightarrow> NO_FONT_LANGUAGE_OVERRIDE | Some d \<Rightarrow> d),
       aUnicodeRanges = GetUnicodeRangeAsCharacterMap face,
       aFontDisplay = (case GetFontDisplay face of None \<Rightarrow> Auto | Some d \<Rightarrow> d),
       aRangeFlags = snd i,
       aAscentOverride = (case GetAscentOverride face of None \<Rightarrow> - 1 | Some p \<Rightarrow> p),
       aDescentOverride = (case GetDescentOverride face of None \<Rightarrow> - 1 | Some p \<Rightarrow> p),
       aLineGapOverride = (case GetLineGapOverride face of None \<Rightarrow> - 1 | Some p \<Rightarrow> p),
       aSizeAdjust = (case GetSizeAdjust face of None \<Rightarrow> 1 | Some p \<Rightarrow> p) \<rparr>"
    unfolding descriptor_attributes_def Let_def w_def [symmetric] s_def [symmetric]
      i_def [symmetric]
    by (simp only: r sum.case)
  have sty: "\<exists>f2. Inr r = fst (GetStyleRangeForDescriptor T (GetFontStyle face) f2)"
    using r unfolding i_def by (intro exI [of _ "snd s"]) simp
  show ?thesis
    unfolding d using st sty by (simp add: w_def)
qed

subsection \<open>Updating an existing entry\<close>

lemma descriptor_attributes_total: "\<exists>a. descriptor_attributes T face = Inr a"
  using descriptor_attributes_flags [of T face] by blast

lemma existing_entry_result:
  assumes "GetUserFontEntry (faces fs aFontFace) = Some e"
    and "descriptor_attributes T (faces fs aFontFace) = Inr a"
  shows "FindOrCreateUserFontEntryFromFontFace T fv foc aFamilyName aFontFace og fs
    = Inr (Some e, update_existing_entry aFamilyName a e fs)"
  using assms by (simp add: FindOrCreateUserFontEntryFromFontFace_def)

lemma family_entries_RemoveFontEntry:
  "family_entries (RemoveFontEntry name e fs) n =
     (if n = name then removeAll e (family_entries fs n) else family_entries fs n)"
  by (simp add: family_entries_def RemoveFontEntry_def split: option.splits)

lemma RemoveFontEntry_frame:
  "entries (RemoveFontEntry name e fs) = entries fs"
  "faces (RemoveFontEntry name e fs) = faces fs"
  "entries_allocated (RemoveFontEntry name e fs) = entries_allocated fs"
  by (simp_all add: RemoveFontEntry_def split: option.splits)

lemma lookup_then_remove:
  "(case LookupFamily fs n of Some family \<Rightarrow> RemoveFontEntry n e fs | None \<Rightarrow> fs)
     = RemoveFontEntry n e fs"
  by (simp add: LookupFamily_def RemoveFontEntry_def split: option.splits)

lemma RemoveFontEntry_entries_update:
  "RemoveFontEntry n e (fs\<lparr>entries := X\<rparr>) = (RemoveFontEntry n e fs)\<lparr>entries := X\<rparr>"
  by (simp add: RemoveFontEntry_def split: option.splits)

lemma update_existing_entry_alt:
  "update_existing_entry aFamilyName a e fs =
     (if family_changes fs e aFamilyName
      then (RemoveFontEntry (mFamilyName (entries fs e)) e fs)
             \<lparr>entries := (entries fs)(e := (entries fs e)\<lparr>mAttributes := a, mFamilyName := []\<rparr>)\<rparr>
      else fs\<lparr>entries := (entries fs)(e := (entries fs e)\<lparr>mAttributes := a\<rparr>)\<rparr>)"
  unfolding update_existing_entry_def Let_def lookup_then_remove
  by (simp add: family_changes_def UpdateAttributes_def RemoveFontEntry_entries_update
        RemoveFontEntry_frame)

lemma update_existing_entry_entry:
  "mAttributes (entries (update_existing_entry n a e fs) e) = a"
  "mSrcList (entries (update_existing_entry n a e fs) e) = mSrcList (entries fs e)"
  "mFontFaces (entries (update_existing_entry n a e fs) e) = mFontFaces (entries fs e)"
  "mFamilyName (entries (update_existing_entry n a e fs) e) =
     (if family_changes fs e n then [] else mFamilyName (entries fs e))"
  "e' \<noteq> e \<Longrightarrow> entries (update_existing_entry n a e fs) e' = entries fs e'"
  by (simp_all add: update_existing_entry_alt RemoveFontEntry_frame)

lemma update_existing_entry_frame:
  "entries_allocated (update_existing_entry n a e fs) = entries_allocated fs"
  "faces (update_existing_entry n a e fs) = faces fs"
  by (simp_all add: update_existing_entry_alt RemoveFontEntry_frame)

lemma update_existing_entry_families:
  "family_entries (update_existing_entry n a e fs) m =
     (if family_changes fs e n \<and> m = mFamilyName (entries fs e)
      then removeAll e (family_entries fs m) else family_entries fs m)"
  by (simp add: update_existing_entry_alt family_entries_def RemoveFontEntry_def
        split: option.splits)

lemma entry_updates_commute:
  "r\<lparr>mFamilyName := n, mAttributes := a\<rparr> = r\<lparr>mAttributes := a, mFamilyName := n\<rparr>"
  by (cases r) simp

lemma update_existing_entry_other_families:
  "m \<noteq> mFamilyName (entries fs e) \<Longrightarrow>
     mFontFamilies (update_existing_entry n a e fs) m = mFontFamilies fs m"
  by (simp add: update_existing_entry_alt RemoveFontEntry_def split: option.splits)

lemma update_existing_entry_idem:
  "update_existing_entry n a e (update_existing_entry n a e fs) = update_existing_entry n a e fs"
proof (cases "family_changes fs e n")
  case True
  let ?fs1 = "update_existing_entry n a e fs"
  have nc: "\<not> family_changes ?fs1 e n"
    using True by (simp add: family_changes_def update_existing_entry_entry)
  show ?thesis
    using True
    by (subst update_existing_entry_alt [of n a e ?fs1])
       (simp add: nc, simp add: update_existing_entry_alt RemoveFontEntry_frame entry_updates_commute)
next
  case False
  let ?fs1 = "update_existing_entry n a e fs"
  have nc: "\<not> family_changes ?fs1 e n"
    using False by (simp add: family_changes_def update_existing_entry_entry)
  show ?thesis
    using False
    by (subst update_existing_entry_alt [of n a e ?fs1])
       (simp add: nc, simp add: update_existing_entry_alt)
qed

lemma example_set_facts:
  "GetUserFontEntry (faces example_set 0) = Some 0"
  "mFamilyName (entries example_set 0) = ''A''"
  "entries_allocated example_set = 1"
  "family_entries example_set ''A'' = [0]"
  "mSrcList (entries example_set 0) = [(url_src Author good_url)\<lparr>mFormatHint := Woff2\<rparr>]"
  by (simp_all add: example_set_def example_face_def example_entry_def family_entries_def)

lemma example_set_invariant: "entry_in_stored_family example_set"
  by (auto simp: entry_in_stored_family_def family_entries_def example_set_def example_entry_def
        split: if_splits)

subsection \<open>The loading checks\<close>

lemma any_face_loading_iff:
  "any_face_loading fcs rs = (\<exists>r \<in> set rs. Status (fcs (mFontFace r)) = Face_Loading)"
  by (induction rs) auto

lemma HasLoadingFontFaces_coherent:
  assumes "cache_coherent fs"
  shows "fst (HasLoadingFontFaces fs) = any_face_loading (faces fs) (mNonRuleFaces fs)"
  using assms
  by (auto simp: HasLoadingFontFaces_def UpdateHasLoadingFontFaces_def cache_coherent_def Let_def)

lemma HasLoadingFontFaces_frame:
  "mStatus (snd (HasLoadingFontFaces fs)) = mStatus fs"
  "faces (snd (HasLoadingFontFaces fs)) = faces fs"
  "mNonRuleFaces (snd (HasLoadingFontFaces fs)) = mNonRuleFaces fs"
  "mOwner (snd (HasLoadingFontFaces fs)) = mOwner fs"
  "mDelayedLoadCheck (snd (HasLoadingFontFaces fs)) = mDelayedLoadCheck fs"
  "IsOnOwningThread (snd (HasLoadingFontFaces fs)) = IsOnOwningThread fs"
  "dispatched (snd (HasLoadingFontFaces fs)) = dispatched fs"
  "mNonRuleFacesDirty (snd (HasLoadingFontFaces fs)) = mNonRuleFacesDirty fs"
  "userFontSetDirty (snd (HasLoadingFontFaces fs)) = userFontSetDirty fs"
  "mFontFamilies (snd (HasLoadingFontFaces fs)) = mFontFamilies fs"
  "entries (snd (HasLoadingFontFaces fs)) = entries fs"
  "entries_allocated (snd (HasLoadingFontFaces fs)) = entries_allocated fs"
  by (simp_all add: HasLoadingFontFaces_def UpdateHasLoadingFontFaces_def Let_def)

lemma HasLoadingFontFaces_keeps_coherent:
  "cache_coherent fs \<Longrightarrow> cache_coherent (snd (HasLoadingFontFaces fs))"
  by (auto simp: HasLoadingFontFaces_def UpdateHasLoadingFontFaces_def cache_coherent_def Let_def)

lemma HasLoadingFontFaces_dirty:
  "mHasLoadingFontFacesIsDirty fs \<Longrightarrow>
     fst (HasLoadingFontFaces fs) = any_face_loading (faces fs) (mNonRuleFaces fs)
     \<and> cache_coherent (snd (HasLoadingFontFaces fs))"
  by (simp add: HasLoadingFontFaces_def UpdateHasLoadingFontFaces_def cache_coherent_def Let_def)

lemma notify_frame:
  "mStatus (OnLoadingStarted fs) = mStatus fs"
  "mStatus (OnLoadingFinished fs) = mStatus fs"
  "mStatus (DispatchToOwningThread r fs) = mStatus fs"
  "faces (OnLoadingStarted fs) = faces fs"
  "faces (OnLoadingFinished fs) = faces fs"
  "faces (DispatchToOwningThread r fs) = faces fs"
  "mNonRuleFaces (OnLoadingStarted fs) = mNonRuleFaces fs"
  "mNonRuleFaces (OnLoadingFinished fs) = mNonRuleFaces fs"
  "mNonRuleFaces (DispatchToOwningThread r fs) = mNonRuleFaces fs"
  "cache_coherent (OnLoadingStarted fs) = cache_coherent fs"
  "cache_coherent (OnLoadingFinished fs) = cache_coherent fs"
  "cache_coherent (DispatchToOwningThread r fs) = cache_coherent fs"
  by (simp_all add: OnLoadingStarted_def OnLoadingFinished_def DispatchToOwningThread_def
        cache_coherent_def split: option.splits)

lemma cache_coherent_mStatus:
  "cache_coherent (fs\<lparr>mStatus := x\<rparr>) = cache_coherent fs"
  by (simp add: cache_coherent_def)

lemma CheckLoadingStarted_status:
  "mStatus (CheckLoadingStarted fs) =
     (if fst (HasLoadingFontFaces fs) then Loading else mStatus fs)"
  by (simp add: CheckLoadingStarted_def Let_def notify_frame HasLoadingFontFaces_frame)

lemma CheckLoadingFinished_status:
  "mStatus (CheckLoadingFinished fs) =
     (if \<not> mDelayedLoadCheck fs \<and> ReadyPromiseIsPending fs \<and> \<not> fst (HasLoadingFontFaces fs)
      then Loaded else mStatus fs)"
  by (simp add: CheckLoadingFinished_def MightHavePendingFontLoads_def Let_def notify_frame
        HasLoadingFontFaces_frame)

lemma Check_frame:
  "faces (CheckLoadingStarted fs) = faces fs"
  "faces (CheckLoadingFinished fs) = faces fs"
  "mNonRuleFaces (CheckLoadingStarted fs) = mNonRuleFaces fs"
  "mNonRuleFaces (CheckLoadingFinished fs) = mNonRuleFaces fs"
  by (simp_all add: CheckLoadingStarted_def CheckLoadingFinished_def MightHavePendingFontLoads_def
        Let_def notify_frame HasLoadingFontFaces_frame)

lemma Check_frame2:
  "mNonRuleFacesDirty (CheckLoadingStarted fs) = mNonRuleFacesDirty fs"
  "mNonRuleFacesDirty (CheckLoadingFinished fs) = mNonRuleFacesDirty fs"
  "userFontSetDirty (CheckLoadingStarted fs) = userFontSetDirty fs"
  "userFontSetDirty (CheckLoadingFinished fs) = userFontSetDirty fs"
  "mFontFamilies (CheckLoadingStarted fs) = mFontFamilies fs"
  "mFontFamilies (CheckLoadingFinished fs) = mFontFamilies fs"
  "entries (CheckLoadingStarted fs) = entries fs"
  "entries (CheckLoadingFinished fs) = entries fs"
  by (simp_all add: CheckLoadingStarted_def CheckLoadingFinished_def MightHavePendingFontLoads_def
        Let_def OnLoadingStarted_def OnLoadingFinished_def DispatchToOwningThread_def
        HasLoadingFontFaces_frame split: option.splits)

lemma Check_keeps_coherent:
  assumes "cache_coherent fs"
  shows "cache_coherent (CheckLoadingStarted fs)" "cache_coherent (CheckLoadingFinished fs)"
  using assms HasLoadingFontFaces_keeps_coherent [OF assms]
  by (simp_all add: CheckLoadingStarted_def CheckLoadingFinished_def MightHavePendingFontLoads_def
        Let_def notify_frame cache_coherent_mStatus)

lemma status_cases: "(x \<noteq> Loading) = (x = Loaded)" "(x \<noteq> Loaded) = (x = Loading)"
  by (cases x; simp)+

lemma OnFontFaceStatusChanged_status:
  "mStatus (OnFontFaceStatusChanged f fs) =
     (if Status (faces fs f) = Face_Loading \<and> any_face_loading (faces fs) (mNonRuleFaces fs)
      then Loading else mStatus fs)"
proof -
  let ?fs1 = "fs\<lparr>mHasLoadingFontFacesIsDirty := True\<rparr>"
  have "fst (HasLoadingFontFaces ?fs1) = any_face_loading (faces fs) (mNonRuleFaces fs)"
    using HasLoadingFontFaces_dirty [of ?fs1] by simp
  then show ?thesis
    by (simp add: OnFontFaceStatusChanged_def Let_def CheckLoadingStarted_status
          DispatchCheckLoadingFinishedAfterDelay_def notify_frame)
qed

lemma CheckLoadingFinishedAfterDelay_status:
  assumes "cache_coherent fs"
  shows "mStatus (CheckLoadingFinishedAfterDelay fs) =
     (if ReadyPromiseIsPending fs \<and> \<not> any_face_loading (faces fs) (mNonRuleFaces fs)
      then Loaded else mStatus fs)"
proof -
  let ?fs1 = "fs\<lparr>mDelayedLoadCheck := False\<rparr>"
  have c: "cache_coherent ?fs1" using assms by (simp add: cache_coherent_def)
  show ?thesis
    using HasLoadingFontFaces_coherent [OF c]
    by (simp add: CheckLoadingFinishedAfterDelay_def CheckLoadingFinished_status
          ReadyPromiseIsPending_def)
qed

lemma OnFontFaceStatusChanged_coherent: "cache_coherent (OnFontFaceStatusChanged f fs)"
proof -
  have c: "cache_coherent (fs\<lparr>mHasLoadingFontFacesIsDirty := True\<rparr>)"
    "cache_coherent (fs\<lparr>mHasLoadingFontFacesIsDirty := True, mDelayedLoadCheck := True\<rparr>)"
    by (simp_all add: cache_coherent_def)
  show ?thesis
    using Check_keeps_coherent(1) [OF c(1)] c
    by (simp add: OnFontFaceStatusChanged_def Let_def notify_frame
          DispatchCheckLoadingFinishedAfterDelay_def)
qed

lemma CheckLoadingFinishedAfterDelay_coherent:
  "cache_coherent fs \<Longrightarrow> cache_coherent (CheckLoadingFinishedAfterDelay fs)"
proof -
  assume "cache_coherent fs"
  then have "cache_coherent (fs\<lparr>mDelayedLoadCheck := False\<rparr>)"
    by (simp add: cache_coherent_def)
  then show ?thesis
    by (simp add: CheckLoadingFinishedAfterDelay_def Check_keeps_coherent)
qed

lemma Add_cases:
  "Add flush f fs =
     (if IsInFontFaceSet (flush fs) f then (False, None, flush fs)
      else if HasRule (faces (flush fs) f) then (False, Some InvalidModificationError, flush fs)
      else (True, None, CheckLoadingStarted (add_prepared f (flush fs))))"
  by (simp add: Add_def Let_def add_prepared_def MarkUserFontSetDirty_def AddFontFaceSet_def)

lemma add_prepared_facts:
  "mNonRuleFaces (add_prepared f fs) = mNonRuleFaces fs @ [\<lparr>mFontFace = f, mOrigin = None\<rparr>]"
  "mNonRuleFacesDirty (add_prepared f fs)"
  "userFontSetDirty (add_prepared f fs)"
  "mHasLoadingFontFacesIsDirty (add_prepared f fs)"
  "mInFontFaceSet (faces (add_prepared f fs) f)"
  "g \<noteq> f \<Longrightarrow> faces (add_prepared f fs) g = faces fs g"
  "HasRule (faces (add_prepared f fs) g) = HasRule (faces fs g)"
  "mStatus (add_prepared f fs) = mStatus fs"
  "mFontFamilies (add_prepared f fs) = mFontFamilies fs"
  "entries (add_prepared f fs) = entries fs"
  by (simp_all add: add_prepared_def AddFontFaceSet_def)

subsection \<open>Add, Delete and Clear\<close>



lemma remove_first_record_subset:
  "remove_first_record f rs = Some rs' \<Longrightarrow> set rs' \<subseteq> set rs"
  by (induction rs arbitrary: rs') (auto split: if_splits option.splits)



lemma remove_all_from_set_faces:
  "faces (remove_all_from_set rs fs) g =
     (if g \<in> mFontFace ` set rs then (faces fs g)\<lparr>mInFontFaceSet := False\<rparr> else faces fs g)"
  by (induction rs arbitrary: fs) (auto simp: RemoveFontFaceSet_def)

lemma remove_all_from_set_others:
  "remove_all_from_set rs fs = fs\<lparr>faces := faces (remove_all_from_set rs fs)\<rparr>"
proof (induction rs arbitrary: fs)
  case Nil
  then show ?case by simp
next
  case (Cons r rs)
  let ?fs1 = "RemoveFontFaceSet (mFontFace r) fs"
  have "remove_all_from_set (r # rs) fs = remove_all_from_set rs ?fs1" by simp
  also have "\<dots> = ?fs1\<lparr>faces := faces (remove_all_from_set rs ?fs1)\<rparr>" by (rule Cons.IH)
  also have "\<dots> = fs\<lparr>faces := faces (remove_all_from_set (r # rs) fs)\<rparr>"
    by (simp add: RemoveFontFaceSet_def)
  finally show ?case .
qed

lemma remove_all_from_set_frame:
  "mStatus (remove_all_from_set rs fs) = mStatus fs"
  "mDelayedLoadCheck (remove_all_from_set rs fs) = mDelayedLoadCheck fs"
  "mOwner (remove_all_from_set rs fs) = mOwner fs"
  by (subst remove_all_from_set_others, simp)+

lemma Clear_cases:
  "Clear flush fs =
     (if mNonRuleFaces (flush fs) = [] then flush fs
      else CheckLoadingFinished (clear_prepared (flush fs)))"
  by (simp add: Clear_def Let_def clear_prepared_def MarkUserFontSetDirty_def)

lemma clear_prepared_facts:
  "mNonRuleFaces (clear_prepared fs) = []"
  "mNonRuleFacesDirty (clear_prepared fs)"
  "userFontSetDirty (clear_prepared fs)"
  "mHasLoadingFontFacesIsDirty (clear_prepared fs)"
  "mStatus (clear_prepared fs) = mStatus fs"
  "mDelayedLoadCheck (clear_prepared fs) = mDelayedLoadCheck fs"
  "ReadyPromiseIsPending (clear_prepared fs) = ReadyPromiseIsPending fs"
  "faces (clear_prepared fs) g =
     (if g \<in> mFontFace ` set (mNonRuleFaces fs) then (faces fs g)\<lparr>mInFontFaceSet := False\<rparr>
      else faces fs g)"
  by (simp_all add: clear_prepared_def remove_all_from_set_faces remove_all_from_set_frame
        ReadyPromiseIsPending_def)

lemmas example_defs = example_set_def example_face_def example_rule_face_def
  example_new_face_def example_loading_set_def example_finishing_set_def

lemma example_membership:
  "IsInFontFaceSet example_set 0" "\<not> HasRule (faces example_set 0)"
  "IsInFontFaceSet example_set 3" "HasRule (faces example_set 3)"
  "\<not> IsInFontFaceSet example_set 2" "\<not> HasRule (faces example_set 2)"
  "\<not> IsInFontFaceSet example_set 4" "HasRule (faces example_set 4)"
  "mNonRuleFaces example_set = [\<lparr>mFontFace = 0, mOrigin = None\<rparr>]"
  by (simp_all add: IsInFontFaceSet_def example_defs)

















subsection \<open>Matching\<close>

















section \<open>Claims\<close>

text \<open>
  C9.  An absent (auto) weight, stretch or slant makes its resolver set the flag
  \<open>eAutoWeight\<close>, \<open>eAutoStretch\<close> or \<open>eAutoSlantStyle\<close> and return the point range of the
  \<open>NORMAL\<close> value, whatever the flags were.  A present value leaves the flags as they are
  and is what the resolver returns: the weight range converted bound by bound, the
  stretch range as it is, and for the slant the point range of \<open>NORMAL\<close> for \<open>Normal\<close>,
  the point range of \<open>ITALIC\<close> for \<open>Italic\<close>, and the two converted angles for \<open>Oblique\<close>.
  So in the attributes computed for a face, starting from \<open>eNoFlags\<close>, each flag is set
  exactly when its descriptor is absent, and the three ranges are those the resolvers
  give: auto is never an unflagged normal, and a present value is never replaced by the
  default.  The slant switch has an arm for each of \<open>Normal\<close>, \<open>Italic\<close> and \<open>Oblique\<close>,
  some arm is always taken, and neither the resolver nor the attribute computation ever
  ends in the assertion behind the switch.
\<close>

theorem C9_auto_ranges_are_flagged:
  "GetWeightRangeForDescriptor T None fl = (point_range (FontWeight_NORMAL T), fl OR eAutoWeight)
   \<and> GetStretchRangeForDescriptor T None fl
       = (point_range (FontStretch_NORMAL T), fl OR eAutoStretch)
   \<and> GetStyleRangeForDescriptor T None fl
       = (Inr (point_range (FontSlantStyle_NORMAL T)), fl OR eAutoSlantStyle)
   \<and> snd (GetWeightRangeForDescriptor T None fl) AND eAutoWeight \<noteq> 0
   \<and> snd (GetStretchRangeForDescriptor T None fl) AND eAutoStretch \<noteq> 0
   \<and> snd (GetStyleRangeForDescriptor T None fl) AND eAutoSlantStyle \<noteq> 0
   \<and> snd (GetWeightRangeForDescriptor T (Some wv) fl) = fl
   \<and> snd (GetStretchRangeForDescriptor T (Some sv) fl) = fl
   \<and> snd (GetStyleRangeForDescriptor T (Some val) fl) = fl
   \<and> GetWeightRangeForDescriptor T (Some (w0, w1)) fl
       = ((FontWeight_FromFloat T w0, FontWeight_FromFloat T w1), fl)
   \<and> GetStretchRangeForDescriptor T (Some (s0, s1)) fl = ((s0, s1), fl)
   \<and> GetStyleRangeForDescriptor T (Some Normal) fl
       = (Inr (point_range (FontSlantStyle_NORMAL T)), fl)
   \<and> GetStyleRangeForDescriptor T (Some Italic) fl
       = (Inr (point_range (FontSlantStyle_ITALIC T)), fl)
   \<and> GetStyleRangeForDescriptor T (Some (Oblique a b)) fl
       = (Inr (FontSlantStyle_FromFloat T a, FontSlantStyle_FromFloat T b), fl)
   \<and> (\<exists>att. descriptor_attributes T face = Inr att
          \<and> (aRangeFlags att AND eAutoWeight \<noteq> 0) = (GetFontWeight face = None)
          \<and> (aRangeFlags att AND eAutoStretch \<noteq> 0) = (GetFontStretch face = None)
          \<and> (aRangeFlags att AND eAutoSlantStyle \<noteq> 0) = (GetFontStyle face = None)
          \<and> aWeight att =
              (case GetFontWeight face of
                 None \<Rightarrow> point_range (FontWeight_NORMAL T)
               | Some v \<Rightarrow> (FontWeight_FromFloat T (fst v), FontWeight_FromFloat T (snd v)))
          \<and> aStretch att =
              (case GetFontStretch face of
                 None \<Rightarrow> point_range (FontStretch_NORMAL T)
               | Some v \<Rightarrow> v)
          \<and> aStyle att =
              (case GetFontStyle face of
                 None \<Rightarrow> point_range (FontSlantStyle_NORMAL T)
               | Some Normal \<Rightarrow> point_range (FontSlantStyle_NORMAL T)
               | Some Italic \<Rightarrow> point_range (FontSlantStyle_ITALIC T)
               | Some (Oblique x y) \<Rightarrow>
                   (FontSlantStyle_FromFloat T x, FontSlantStyle_FromFloat T y)))
   \<and> style_switch T Normal = Some (point_range (FontSlantStyle_NORMAL T))
   \<and> style_switch T Italic = Some (point_range (FontSlantStyle_ITALIC T))
   \<and> style_switch T (Oblique a b)
       = Some (FontSlantStyle_FromFloat T a, FontSlantStyle_FromFloat T b)
   \<and> style_switch T val \<noteq> None
   \<and> fst (GetStyleRangeForDescriptor T sl fl) \<noteq> Inl AssertUnreachable"
proof -
  have nf: "fst (GetStyleRangeForDescriptor T sl fl) \<noteq> Inl AssertUnreachable"
    using style_range_not_fatal [of T sl fl] by auto
  obtain att where att: "descriptor_attributes T face = Inr att"
    and wr: "aWeight att = fst (GetWeightRangeForDescriptor T (GetFontWeight face) eNoFlags)"
    and sr: "aStretch att = fst (GetStretchRangeForDescriptor T (GetFontStretch face) 0)"
    and ir: "\<exists>f2. Inr (aStyle att) = fst (GetStyleRangeForDescriptor T (GetFontStyle face) f2)"
    using descriptor_attributes_ranges [of T face] by blast
  have fl: "aRangeFlags att =
         (if GetFontWeight face = None then eAutoWeight else 0)
         OR (if GetFontStretch face = None then eAutoStretch else 0)
         OR (if GetFontStyle face = None then eAutoSlantStyle else 0)"
    using descriptor_attributes_flags [of T face] att by auto
  have bits: "(aRangeFlags att AND eAutoWeight \<noteq> 0) = (GetFontWeight face = None)"
    "(aRangeFlags att AND eAutoStretch \<noteq> 0) = (GetFontStretch face = None)"
    "(aRangeFlags att AND eAutoSlantStyle \<noteq> 0) = (GetFontStyle face = None)"
    by (simp_all add: fl eAuto_bits)
  have w: "aWeight att =
      (case GetFontWeight face of
         None \<Rightarrow> point_range (FontWeight_NORMAL T)
       | Some v \<Rightarrow> (FontWeight_FromFloat T (fst v), FontWeight_FromFloat T (snd v)))"
    by (simp add: wr GetWeightRangeForDescriptor_def split: option.splits)
  have s: "aStretch att =
      (case GetFontStretch face of None \<Rightarrow> point_range (FontStretch_NORMAL T) | Some v \<Rightarrow> v)"
    by (simp add: sr GetStretchRangeForDescriptor_def split: option.splits)
  obtain f2 where f2: "Inr (aStyle att) = fst (GetStyleRangeForDescriptor T (GetFontStyle face) f2)"
    using ir by blast
  have i: "aStyle att =
      (case GetFontStyle face of
         None \<Rightarrow> point_range (FontSlantStyle_NORMAL T)
       | Some Normal \<Rightarrow> point_range (FontSlantStyle_NORMAL T)
       | Some Italic \<Rightarrow> point_range (FontSlantStyle_ITALIC T)
       | Some (Oblique x y) \<Rightarrow> (FontSlantStyle_FromFloat T x, FontSlantStyle_FromFloat T y))"
  proof (cases "GetFontStyle face")
    case None
    with f2 show ?thesis by (simp add: GetStyleRangeForDescriptor_def)
  next
    case (Some v)
    with f2 show ?thesis by (cases v) (simp_all add: style_range_kinds)
  qed
  have present: "snd (GetStyleRangeForDescriptor T (Some val) fl) = fl"
    by (simp add: style_range_flags)
  have ex: "\<exists>att. descriptor_attributes T face = Inr att
          \<and> (aRangeFlags att AND eAutoWeight \<noteq> 0) = (GetFontWeight face = None)
          \<and> (aRangeFlags att AND eAutoStretch \<noteq> 0) = (GetFontStretch face = None)
          \<and> (aRangeFlags att AND eAutoSlantStyle \<noteq> 0) = (GetFontStyle face = None)
          \<and> aWeight att =
              (case GetFontWeight face of
                 None \<Rightarrow> point_range (FontWeight_NORMAL T)
               | Some v \<Rightarrow> (FontWeight_FromFloat T (fst v), FontWeight_FromFloat T (snd v)))
          \<and> aStretch att =
              (case GetFontStretch face of
                 None \<Rightarrow> point_range (FontStretch_NORMAL T)
               | Some v \<Rightarrow> v)
          \<and> aStyle att =
              (case GetFontStyle face of
                 None \<Rightarrow> point_range (FontSlantStyle_NORMAL T)
               | Some Normal \<Rightarrow> point_range (FontSlantStyle_NORMAL T)
               | Some Italic \<Rightarrow> point_range (FontSlantStyle_ITALIC T)
               | Some (Oblique x y) \<Rightarrow>
                   (FontSlantStyle_FromFloat T x, FontSlantStyle_FromFloat T y))"
    by (intro exI [of _ att] conjI att bits w s i)
  have rest:
    "GetWeightRangeForDescriptor T None fl = (point_range (FontWeight_NORMAL T), fl OR eAutoWeight)"
    "GetStretchRangeForDescriptor T None fl = (point_range (FontStretch_NORMAL T), fl OR eAutoStretch)"
    "GetStyleRangeForDescriptor T None fl = (Inr (point_range (FontSlantStyle_NORMAL T)), fl OR eAutoSlantStyle)"
    "snd (GetWeightRangeForDescriptor T None fl) AND eAutoWeight \<noteq> 0"
    "snd (GetStretchRangeForDescriptor T None fl) AND eAutoStretch \<noteq> 0"
    "snd (GetStyleRangeForDescriptor T None fl) AND eAutoSlantStyle \<noteq> 0"
    "snd (GetWeightRangeForDescriptor T (Some wv) fl) = fl"
    "snd (GetStretchRangeForDescriptor T (Some sv) fl) = fl"
    "GetWeightRangeForDescriptor T (Some (w0, w1)) fl = ((FontWeight_FromFloat T w0, FontWeight_FromFloat T w1), fl)"
    "GetStretchRangeForDescriptor T (Some (s0, s1)) fl = ((s0, s1), fl)"
    "style_switch T Normal = Some (point_range (FontSlantStyle_NORMAL T))"
    "style_switch T Italic = Some (point_range (FontSlantStyle_ITALIC T))"
    "style_switch T (Oblique a b) = Some (FontSlantStyle_FromFloat T a, FontSlantStyle_FromFloat T b)"
    by (simp_all add: GetWeightRangeForDescriptor_def GetStretchRangeForDescriptor_def
          GetStyleRangeForDescriptor_def flag_tests flags_nonzero style_switch_def)
  note k = style_range_kinds
  show ?thesis
    by (intro conjI rest nf ex present style_switch_total k)
qed

text \<open>
  C7.  For a \<open>Url\<close> component \<open>u\<close> whose URI resolves: followed by a format hint keyword
  it gives exactly one source, with that keyword (\<open>Woff2\<close> for the keyword \<open>Woff2\<close>); alone it
  gives one source with the format \<open>None_format\<close>; followed by a hint string that equals
  "woff" up to ASCII case it gives what the keyword \<open>Woff\<close> gives; followed by a hint
  string that no comparison recognizes it gives one source with the format \<open>Unknown\<close>,
  which is not \<open>None_format\<close>.  Inside a longer list the hint is consumed with its \<open>Url\<close>: the
  sources before are built as without them, then the one source of \<open>u\<close>, then the sources
  of the rest.  A \<open>Url\<close> component whose URI does not resolve, with whatever hints
  trail it, contributes nothing, and the sources of the components around it are built as
  if it were not there.
\<close>

theorem C7_source_list_building:
  assumes u: "GetURI u = Some uri"
    and bad: "GetURI bad = None"
    and rest: "starts_source rest"
    and hs: "trailing_hints hs"
    and w: "LowerCaseEqualsASCII w ''woff''"
    and z: "map ASCIIToLower z \<notin> set (recognized_format_strings fv)"
  shows
    "build_sources og fv [Url u, FormatHintKeyword k] 0 [] = Inr [(url_src og u)\<lparr>mFormatHint := k\<rparr>]
     \<and> build_sources og fv [Url u] 0 [] = Inr [url_src og u]
     \<and> mFormatHint (url_src og u) = None_format
     \<and> build_sources og fv [Url u, FormatHintString w] 0 []
         = build_sources og fv [Url u, FormatHintKeyword Woff] 0 []
     \<and> build_sources og fv [Url u, FormatHintString z] 0 []
         = Inr [(url_src og u)\<lparr>mFormatHint := Unknown\<rparr>]
     \<and> Unknown \<noteq> None_format
     \<and> build_sources og fv (pre @ Url u # FormatHintKeyword k # rest) 0 []
         = sources_then (build_sources og fv pre 0 [])
             (\<lambda>r. build_sources og fv rest 0 (r @ [(url_src og u)\<lparr>mFormatHint := k\<rparr>]))
     \<and> build_sources og fv (pre @ Url bad # hs @ rest) 0 []
         = build_sources og fv (pre @ rest) 0 []"
proof -
  have woff: "format_hint_of_string fv w = Woff"
    using w by (simp add: format_hint_of_string_def)
  have unk: "format_hint_of_string fv z = Unknown"
    by (rule format_hint_unknown [OF z])
  have pre_split: "build_sources og fv (pre @ ys) 0 []
      = sources_then (build_sources og fv pre 0 []) (build_sources og fv ys 0)"
    if "starts_source ys" for ys
    using build_sources_prefix [OF that, of 0 pre og fv "[]"] by simp
  have hint: "build_sources og fv (Url u # FormatHintKeyword k # rest) 0 r
      = build_sources og fv rest 0 (r @ [(url_src og u)\<lparr>mFormatHint := k\<rparr>])" for r
  proof -
    have "build_sources og fv ([Url u, FormatHintKeyword k] @ rest) 0 r
        = sources_then (build_sources og fv [Url u, FormatHintKeyword k] 0 r)
            (build_sources og fv rest 0)"
      using build_sources_prefix [OF rest, of 0 "[Url u, FormatHintKeyword k]" og fv r] by simp
    moreover have "build_sources og fv [Url u, FormatHintKeyword k] 0 r
        = Inr (r @ [(url_src og u)\<lparr>mFormatHint := k\<rparr>])"
      using build_sources_acc [of og fv "[Url u, FormatHintKeyword k]" 0 r] u
      by (simp add: build_url_keyword sources_then_def)
    ultimately show ?thesis by (simp add: sources_then_def)
  qed
  have drop: "build_sources og fv (Url bad # hs @ rest) 0 r = build_sources og fv rest 0 r" for r
    using build_sources_prefix [OF rest, of 0 "Url bad # hs" og fv r]
      build_bad_url [OF hs bad, of og fv r]
    by (simp add: sources_then_def)
  have hint': "build_sources og fv (Url u # FormatHintKeyword k # rest) 0
      = (\<lambda>r. build_sources og fv rest 0 (r @ [(url_src og u)\<lparr>mFormatHint := k\<rparr>]))"
    by (rule ext) (rule hint)
  have drop': "build_sources og fv (Url bad # hs @ rest) 0 = build_sources og fv rest 0"
    by (rule ext) (rule drop)
  have c6: "build_sources og fv (pre @ Url u # FormatHintKeyword k # rest) 0 []
         = sources_then (build_sources og fv pre 0 [])
             (\<lambda>r. build_sources og fv rest 0 (r @ [(url_src og u)\<lparr>mFormatHint := k\<rparr>]))"
    using pre_split [of "Url u # FormatHintKeyword k # rest"]
    by (simp add: starts_source_simps hint')
  have c7: "build_sources og fv (pre @ Url bad # hs @ rest) 0 []
         = build_sources og fv (pre @ rest) 0 []"
    using pre_split [of "Url bad # hs @ rest"] pre_split [OF rest]
    by (simp add: starts_source_simps drop')
  have fmt: "mFormatHint (url_src og u) = None_format"
    by (simp add: url_src_def Let_def)
  show ?thesis
    using u c6 c7
    by (simp add: build_url_keyword build_url_only build_url_string woff unk fmt)
qed

theorem C7_source_list_building_witness:
  "GetURI good_url = Some ''https://example.org/a.woff2''
   \<and> GetURI bad_url = None
   \<and> starts_source [Local ''Arial'']
   \<and> trailing_hints [FormatHintString ''woff'', TechFlags 1]
   \<and> LowerCaseEqualsASCII ''WOFF'' ''woff''
   \<and> map ASCIIToLower ''Fancy'' \<notin> set (recognized_format_strings True)
   \<and> build_sources Author True [Url good_url, FormatHintKeyword Woff2] 0 []
       = Inr [(url_src Author good_url)\<lparr>mFormatHint := Woff2\<rparr>]
   \<and> build_sources Author True [Url good_url] 0 [] = Inr [url_src Author good_url]
   \<and> mFormatHint (url_src Author good_url) = None_format
   \<and> build_sources Author True [Url good_url, FormatHintString ''WOFF''] 0 []
       = build_sources Author True [Url good_url, FormatHintKeyword Woff] 0 []
   \<and> build_sources Author True [Url good_url, FormatHintString ''Fancy''] 0 []
       = Inr [(url_src Author good_url)\<lparr>mFormatHint := Unknown\<rparr>]
   \<and> build_sources Author True
         ([Local ''Helvetica''] @ Url bad_url # [FormatHintString ''woff'', TechFlags 1]
            @ [Local ''Arial'']) 0 []
       = build_sources Author True ([Local ''Helvetica''] @ [Local ''Arial'']) 0 []"
proof -
  have h1: "GetURI good_url = Some ''https://example.org/a.woff2''"
    by (simp add: good_url_def)
  have h2: "GetURI bad_url = None"
    by (simp add: bad_url_def)
  have h3: "starts_source [Local ''Arial'']"
    by (simp add: starts_source_def)
  have h4: "trailing_hints [FormatHintString ''woff'', TechFlags 1]"
    by simp
  have h5: "LowerCaseEqualsASCII ''WOFF'' ''woff''"
    by code_simp
  have h6: "map ASCIIToLower ''Fancy'' \<notin> set (recognized_format_strings True)"
    by code_simp
  from C7_source_list_building [OF h1 h2 h3 h4 h5 h6, of Author Woff2 "[Local ''Helvetica'']"]
  show ?thesis using h1 h2 h3 h4 h5 h6 by blast
qed

lemma build_sources_example:
  "build_sources Author False
     [Url good_url, FormatHintKeyword Woff2, Url bad_url, FormatHintString ''woff'',
      Url good_url, FormatHintString ''WOFF'', TechFlags 3, Local ''Arial''] 0 []
   = Inr [(url_src Author good_url)\<lparr>mFormatHint := Woff2\<rparr>,
          (url_src Author good_url)\<lparr>mFormatHint := Woff, mTechFlags := 3\<rparr>,
          local_src ''Arial'']"
  by code_simp

text \<open>
  C10, as stated, fails: the two reference parameters are written only from the
  allocation on.  When the channel cannot be created, the call returns the failure code
  and the caller's buffer pointer and length are what they were, here a non-null pointer
  and the length 5.
\<close>

theorem C10_stale_outputs_counterexample:
  "NS_FAILED (rv (SyncLoadFontData env_channel_fails (Some 7) 5))
   \<and> aBuffer (SyncLoadFontData env_channel_fails (Some 7) 5) = Some 7
   \<and> aBufferLength (SyncLoadFontData env_channel_fails (Some 7) 5) = 5"
  by (simp add: SyncLoadFontData_def env_channel_fails_def early_return_def NS_FAILED_def)

text \<open>
  C10, amended.  When \<^verbatim>\<open>SyncLoadFontData\<close> returns a failure code, the buffer and the length
  are either null and zero, or \<^verbatim>\<open>malloc\<close> was not called and both are exactly what the caller
  passed in; so they are null and zero whenever the caller passed null and zero, and
  whenever the failure comes after the allocation.  A zero-length payload gives
  \<open>NS_ERROR_FAILURE\<close> and a payload longer than \<^verbatim>\<open>UINT32_MAX\<close> gives
  \<open>NS_ERROR_FILE_TOO_BIG\<close>, both before any allocation; a failed allocation gives
  \<open>NS_ERROR_OUT_OF_MEMORY\<close> with a null buffer and the length reset to zero.  A call that does
  not fail returns \<open>NS_OK\<close> with a buffer that is not null and was not freed.
\<close>

theorem C10_failure_outputs:
  "(let r = SyncLoadFontData env b l in
     (NS_FAILED (rv r) \<longrightarrow>
        (aBuffer r = None \<and> aBufferLength r = 0)
        \<or> (\<not> malloc_called r \<and> aBuffer r = b \<and> aBufferLength r = l))
     \<and> (NS_FAILED (rv r) \<and> b = None \<and> l = 0 \<longrightarrow> aBuffer r = None \<and> aBufferLength r = 0)
     \<and> (NS_FAILED (rv r) \<and> malloc_called r \<longrightarrow> aBuffer r = None \<and> aBufferLength r = 0)
     \<and> (reaches_length_check env \<and> snd (Available env) = 0 \<longrightarrow>
          rv r = NS_ERROR_FAILURE \<and> \<not> malloc_called r)
     \<and> (reaches_length_check env \<and> snd (Available env) > 0xFFFFFFFF \<longrightarrow>
          rv r = NS_ERROR_FILE_TOO_BIG \<and> \<not> malloc_called r)
     \<and> (reaches_length_check env \<and> snd (Available env) \<noteq> 0
          \<and> snd (Available env) \<le> 0xFFFFFFFF
          \<and> malloc env (unat (ucast (snd (Available env)) :: 32 word)) = None \<longrightarrow>
          rv r = NS_ERROR_OUT_OF_MEMORY \<and> malloc_called r \<and> aBuffer r = None
          \<and> aBufferLength r = 0)
     \<and> (\<not> NS_FAILED (rv r) \<longrightarrow> rv r = NS_OK \<and> aBuffer r \<noteq> None \<and> freed r = None))"
proof -
  have ok: "\<not> NS_FAILED NS_OK" "NS_FAILED NS_ERROR_FAILURE" "NS_FAILED NS_ERROR_FILE_TOO_BIG"
    "NS_FAILED NS_ERROR_OUT_OF_MEMORY"
    by (simp_all add: NS_FAILED_def)
  show ?thesis
    unfolding Let_def
    by (auto simp: SyncLoadFontData_def early_return_def Let_def reaches_length_check_def ok
          NS_FAILED_def [of "CreateChannelForSyncLoadFontData env"] NS_FAILED_def [of "Open env"]
          NS_FAILED_def [of "fst (Available env)"] not_less
          split: option.splits)
qed

theorem C10_failure_outputs_witness:
  "reaches_length_check env_empty \<and> snd (Available env_empty) = 0
   \<and> rv (SyncLoadFontData env_empty None 0) = NS_ERROR_FAILURE
   \<and> \<not> malloc_called (SyncLoadFontData env_empty None 0)
   \<and> aBuffer (SyncLoadFontData env_empty None 0) = None
   \<and> aBufferLength (SyncLoadFontData env_empty None 0) = 0
   \<and> reaches_length_check env_too_big \<and> snd (Available env_too_big) > 0xFFFFFFFF
   \<and> rv (SyncLoadFontData env_too_big None 0) = NS_ERROR_FILE_TOO_BIG
   \<and> \<not> malloc_called (SyncLoadFontData env_too_big None 0)
   \<and> reaches_length_check env_no_memory
   \<and> malloc env_no_memory (unat (ucast (snd (Available env_no_memory)) :: 32 word)) = None
   \<and> rv (SyncLoadFontData env_no_memory (Some 7) 5) = NS_ERROR_OUT_OF_MEMORY
   \<and> aBuffer (SyncLoadFontData env_no_memory (Some 7) 5) = None
   \<and> aBufferLength (SyncLoadFontData env_no_memory (Some 7) 5) = 0
   \<and> NS_FAILED (rv (SyncLoadFontData env_read_fails (Some 7) 5))
   \<and> malloc_called (SyncLoadFontData env_read_fails (Some 7) 5)
   \<and> aBuffer (SyncLoadFontData env_read_fails (Some 7) 5) = None
   \<and> aBufferLength (SyncLoadFontData env_read_fails (Some 7) 5) = 0
   \<and> NS_FAILED (rv (SyncLoadFontData env_over_read (Some 7) 5))
   \<and> aBuffer (SyncLoadFontData env_over_read (Some 7) 5) = None
   \<and> aBufferLength (SyncLoadFontData env_over_read (Some 7) 5) = 0
   \<and> \<not> NS_FAILED (rv (SyncLoadFontData env_loads (Some 7) 5))
   \<and> aBuffer (SyncLoadFontData env_loads (Some 7) 5) \<noteq> None"
proof -
  have h: "reaches_length_check env_empty" "snd (Available env_empty) = 0"
    "reaches_length_check env_too_big" "snd (Available env_too_big) > 0xFFFFFFFF"
    "reaches_length_check env_no_memory" "snd (Available env_no_memory) \<noteq> 0"
    "snd (Available env_no_memory) \<le> 0xFFFFFFFF"
    "malloc env_no_memory (unat (ucast (snd (Available env_no_memory)) :: 32 word)) = None"
    by (simp_all add: reaches_length_check_def env_empty_def env_too_big_def env_no_memory_def
          env_channel_fails_def)
  have f: "NS_FAILED (rv (SyncLoadFontData env_read_fails (Some 7) 5))"
    "malloc_called (SyncLoadFontData env_read_fails (Some 7) 5)"
    "NS_FAILED (rv (SyncLoadFontData env_over_read (Some 7) 5))"
    "malloc_called (SyncLoadFontData env_over_read (Some 7) 5)"
    "\<not> NS_FAILED (rv (SyncLoadFontData env_loads (Some 7) 5))"
    "NS_FAILED (rv (SyncLoadFontData env_empty None 0))"
    by (simp_all add: env_evals NS_FAILED_def early_return_def)
  have e1: "rv (SyncLoadFontData env_empty None 0) = NS_ERROR_FAILURE
      \<and> \<not> malloc_called (SyncLoadFontData env_empty None 0)
      \<and> aBuffer (SyncLoadFontData env_empty None 0) = None
      \<and> aBufferLength (SyncLoadFontData env_empty None 0) = 0"
    using C10_failure_outputs [of env_empty None 0] h(1,2) f(6) by (simp add: Let_def)
  have e2: "rv (SyncLoadFontData env_too_big None 0) = NS_ERROR_FILE_TOO_BIG
      \<and> \<not> malloc_called (SyncLoadFontData env_too_big None 0)"
    using C10_failure_outputs [of env_too_big None 0] h(3,4) by (simp add: Let_def)
  have e3: "rv (SyncLoadFontData env_no_memory (Some 7) 5) = NS_ERROR_OUT_OF_MEMORY
      \<and> aBuffer (SyncLoadFontData env_no_memory (Some 7) 5) = None
      \<and> aBufferLength (SyncLoadFontData env_no_memory (Some 7) 5) = 0"
    using C10_failure_outputs [of env_no_memory "Some 7" 5] h(5,6,7,8) by (simp add: Let_def)
  have e4: "aBuffer (SyncLoadFontData env_read_fails (Some 7) 5) = None
      \<and> aBufferLength (SyncLoadFontData env_read_fails (Some 7) 5) = 0"
    using C10_failure_outputs [of env_read_fails "Some 7" 5] f(1,2) by (simp add: Let_def)
  have e5: "aBuffer (SyncLoadFontData env_over_read (Some 7) 5) = None
      \<and> aBufferLength (SyncLoadFontData env_over_read (Some 7) 5) = 0"
    using C10_failure_outputs [of env_over_read "Some 7" 5] f(3,4) by (simp add: Let_def)
  have e6: "aBuffer (SyncLoadFontData env_loads (Some 7) 5) \<noteq> None"
    using C10_failure_outputs [of env_loads "Some 7" 5] f(5) by (simp add: Let_def)
  show ?thesis
    using h(1,2,3,4,5,8) f(1,2,3,5) e1 e2 e3 e4 e5 e6 by simp
qed

text \<open>
  C1.  When the face already owns a resource entry, \<^verbatim>\<open>FindOrCreateUserFontEntryFromFontFace\<close>
  returns that entry and never ends in the fatal assertion.  The entry gets the attributes
  computed from the face; its source list and its owning faces are as before; no entry is
  constructed (the allocation count is unchanged, every other entry is untouched, and the
  result does not depend on \<open>find_or_create\<close>, on the origin or on the pref, which only the
  source list and the construction read); the face keeps its buffer.  Every family keeps
  its entries or loses this one, so no family gets longer.  Resolving again returns the
  same entry and changes nothing more, however often it is repeated.
\<close>

theorem C1_existing_entry_updated_in_place:
  assumes own: "GetUserFontEntry (faces fs aFontFace) = Some e"
  shows "\<exists>a fs'.
      descriptor_attributes T (faces fs aFontFace) = Inr a
      \<and> FindOrCreateUserFontEntryFromFontFace T fv foc aFamilyName aFontFace og fs
          = Inr (Some e, fs')
      \<and> FindOrCreateUserFontEntryFromFontFace T fv' foc' aFamilyName aFontFace og' fs
          = Inr (Some e, fs')
      \<and> mAttributes (entries fs' e) = a
      \<and> mSrcList (entries fs' e) = mSrcList (entries fs e)
      \<and> mFontFaces (entries fs' e) = mFontFaces (entries fs e)
      \<and> entries_allocated fs' = entries_allocated fs
      \<and> (\<forall>e'. e' \<noteq> e \<longrightarrow> entries fs' e' = entries fs e')
      \<and> faces fs' = faces fs
      \<and> (\<forall>m. family_entries fs' m = family_entries fs m
              \<or> family_entries fs' m = removeAll e (family_entries fs m))
      \<and> (\<forall>m. length (family_entries fs' m) \<le> length (family_entries fs m))
      \<and> FindOrCreateUserFontEntryFromFontFace T fv foc aFamilyName aFontFace og fs'
          = Inr (Some e, fs')
      \<and> (\<forall>k. (re_resolve T fv foc aFamilyName aFontFace og ^^ Suc k) fs = fs')"
proof -
  obtain a where a: "descriptor_attributes T (faces fs aFontFace) = Inr a"
    using descriptor_attributes_total by blast
  define fs' where "fs' = update_existing_entry aFamilyName a e fs"
  have faces': "faces fs' = faces fs"
    by (simp add: fs'_def update_existing_entry_frame)
  have own': "GetUserFontEntry (faces fs' aFontFace) = Some e"
    and a': "descriptor_attributes T (faces fs' aFontFace) = Inr a"
    using own a by (simp_all add: faces')
  have r: "FindOrCreateUserFontEntryFromFontFace T v c aFamilyName aFontFace g fs
      = Inr (Some e, fs')" for v c g
    unfolding fs'_def by (rule existing_entry_result [OF own a])
  have again: "FindOrCreateUserFontEntryFromFontFace T fv foc aFamilyName aFontFace og fs'
      = Inr (Some e, fs')"
    using existing_entry_result [OF own' a', of fv foc aFamilyName og]
    by (simp add: fs'_def update_existing_entry_idem)
  have step0: "re_resolve T fv foc aFamilyName aFontFace og fs = fs'"
    using r [of fv foc og] by (simp add: re_resolve_def)
  have step1: "re_resolve T fv foc aFamilyName aFontFace og fs' = fs'"
    using again by (simp add: re_resolve_def)
  have iter: "(re_resolve T fv foc aFamilyName aFontFace og ^^ Suc k) fs = fs'" for k
    by (induction k) (simp_all add: step0 step1)
  have fam: "family_entries fs' m = family_entries fs m
      \<or> family_entries fs' m = removeAll e (family_entries fs m)" for m
    by (simp add: fs'_def update_existing_entry_families)
  have len: "length (family_entries fs' m) \<le> length (family_entries fs m)" for m
    using fam [of m] length_removeAll_less_eq [of e "family_entries fs m"] by auto
  have others: "\<forall>e'. e' \<noteq> e \<longrightarrow> entries fs' e' = entries fs e'"
    by (simp add: fs'_def update_existing_entry_entry)
  show ?thesis
    apply (rule exI [of _ a], rule exI [of _ fs'])
    using a r [of fv foc og] r [of fv' foc' og'] faces' fam len again iter others
    by (simp add: fs'_def update_existing_entry_entry update_existing_entry_frame)
qed

theorem C1_existing_entry_updated_in_place_witness:
  "GetUserFontEntry (faces example_set 0) = Some 0
   \<and> (\<exists>fs'. FindOrCreateUserFontEntryFromFontFace example_types True no_find_or_create ''A'' 0
               Author example_set = Inr (Some 0, fs')
         \<and> entries_allocated fs' = 1
         \<and> mSrcList (entries fs' 0) = [(url_src Author good_url)\<lparr>mFormatHint := Woff2\<rparr>]
         \<and> faces fs' = faces example_set
         \<and> length (family_entries fs' ''A'') \<le> 1
         \<and> FindOrCreateUserFontEntryFromFontFace example_types True no_find_or_create ''A'' 0
               Author fs' = Inr (Some 0, fs'))"
proof -
  note h = example_set_facts(1)
  from C1_existing_entry_updated_in_place
         [OF h, of example_types True no_find_or_create "''A''" Author True no_find_or_create
            Author]
  obtain a fs' where
    r: "FindOrCreateUserFontEntryFromFontFace example_types True no_find_or_create ''A'' 0
          Author example_set = Inr (Some 0, fs')"
    and src: "mSrcList (entries fs' 0) = mSrcList (entries example_set 0)"
    and alloc: "entries_allocated fs' = entries_allocated example_set"
    and fcs: "faces fs' = faces example_set"
    and len: "\<forall>m. length (family_entries fs' m) \<le> length (family_entries example_set m)"
    and again: "FindOrCreateUserFontEntryFromFontFace example_types True no_find_or_create ''A''
          0 Author fs' = Inr (Some 0, fs')"
    by blast
  from len have "length (family_entries fs' ''A'') \<le> length (family_entries example_set ''A'')"
    by blast
  with h r src alloc fcs again show ?thesis
    by (auto simp: example_set_facts)
qed

text \<open>
  C2.  When the face already owns an entry whose stored family name is not empty and is
  not the name it is resolved under, the entry is removed from the family stored under
  its old name and its stored name is cleared.  No other family changes and no family
  gains an entry.  If every entry was only in the family its stored name says (so in at
  most one family), this still holds afterwards, and the entry is then in no family at
  all until it is attached again.
\<close>

theorem C2_family_change_detaches_entry:
  assumes own: "GetUserFontEntry (faces fs aFontFace) = Some e"
    and stored: "mFamilyName (entries fs e) \<noteq> []"
    and differs: "mFamilyName (entries fs e) \<noteq> aFamilyName"
  shows "\<exists>fs'.
      FindOrCreateUserFontEntryFromFontFace T fv foc aFamilyName aFontFace og fs
        = Inr (Some e, fs')
      \<and> e \<notin> set (family_entries fs' (mFamilyName (entries fs e)))
      \<and> mFamilyName (entries fs' e) = []
      \<and> family_entries fs' (mFamilyName (entries fs e))
          = removeAll e (family_entries fs (mFamilyName (entries fs e)))
      \<and> (\<forall>m. m \<noteq> mFamilyName (entries fs e) \<longrightarrow> mFontFamilies fs' m = mFontFamilies fs m)
      \<and> (\<forall>m. set (family_entries fs' m) \<subseteq> set (family_entries fs m))
      \<and> (entry_in_stored_family fs \<longrightarrow>
            entry_in_stored_family fs' \<and> (\<forall>m. e \<notin> set (family_entries fs' m)))"
proof -
  obtain a where a: "descriptor_attributes T (faces fs aFontFace) = Inr a"
    using descriptor_attributes_total by blast
  define fs' where "fs' = update_existing_entry aFamilyName a e fs"
  define old where "old = mFamilyName (entries fs e)"
  have ch: "family_changes fs e aFamilyName"
    using stored differs by (simp add: family_changes_def)
  have r: "FindOrCreateUserFontEntryFromFontFace T fv foc aFamilyName aFontFace og fs
      = Inr (Some e, fs')"
    unfolding fs'_def by (rule existing_entry_result [OF own a])
  have fam: "family_entries fs' m
      = (if m = old then removeAll e (family_entries fs m) else family_entries fs m)" for m
    using ch by (simp add: fs'_def old_def update_existing_entry_families)
  have sub: "set (family_entries fs' m) \<subseteq> set (family_entries fs m)" for m
    by (auto simp: fam)
  have name: "mFamilyName (entries fs' e) = []"
    using ch by (simp add: fs'_def update_existing_entry_entry)
  have others: "x \<noteq> e \<Longrightarrow> entries fs' x = entries fs x" for x
    by (simp add: fs'_def update_existing_entry_entry)
  have inv: "entry_in_stored_family fs' \<and> (\<forall>m. e \<notin> set (family_entries fs' m))"
    if i: "entry_in_stored_family fs"
  proof -
    have nowhere: "e \<notin> set (family_entries fs' m)" for m
    proof
      assume m: "e \<in> set (family_entries fs' m)"
      then have "e \<in> set (family_entries fs m)" using sub by blast
      with i have "m = old" by (auto simp: entry_in_stored_family_def old_def)
      with m show False by (simp add: fam)
    qed
    have "mFamilyName (entries fs' x) = m" if x: "x \<in> set (family_entries fs' m)" for x m
    proof -
      from x nowhere have ne: "x \<noteq> e" by blast
      from x sub have "x \<in> set (family_entries fs m)" by blast
      with i have "mFamilyName (entries fs x) = m" by (auto simp: entry_in_stored_family_def)
      with others [OF ne] show ?thesis by simp
    qed
    with nowhere show ?thesis by (auto simp: entry_in_stored_family_def)
  qed
  have other_fams: "\<forall>m. m \<noteq> old \<longrightarrow> mFontFamilies fs' m = mFontFamilies fs m"
    by (simp add: fs'_def old_def update_existing_entry_other_families)
  show ?thesis
    apply (rule exI [of _ fs'])
    using r fam [of old] name sub inv other_fams
    by (simp add: old_def [symmetric])
qed

theorem C2_family_change_detaches_entry_witness:
  "GetUserFontEntry (faces example_set 0) = Some 0
   \<and> mFamilyName (entries example_set 0) = ''A''
   \<and> family_entries example_set ''A'' = [0]
   \<and> entry_in_stored_family example_set
   \<and> (\<exists>fs'. FindOrCreateUserFontEntryFromFontFace example_types True no_find_or_create ''B'' 0
               Author example_set = Inr (Some 0, fs')
         \<and> family_entries fs' ''A'' = []
         \<and> mFamilyName (entries fs' 0) = []
         \<and> entry_in_stored_family fs'
         \<and> (\<forall>m. 0 \<notin> set (family_entries fs' m)))"
proof -
  note h = example_set_facts(1)
  have stored: "mFamilyName (entries example_set 0) \<noteq> []"
    and differs: "mFamilyName (entries example_set 0) \<noteq> ''B''"
    by (simp_all add: example_set_facts)
  from C2_family_change_detaches_entry
         [OF h stored differs, of example_types True no_find_or_create Author]
  obtain fs' where
    r: "FindOrCreateUserFontEntryFromFontFace example_types True no_find_or_create ''B'' 0
          Author example_set = Inr (Some 0, fs')"
    and name: "mFamilyName (entries fs' 0) = []"
    and fam: "family_entries fs' (mFamilyName (entries example_set 0))
          = removeAll 0 (family_entries example_set (mFamilyName (entries example_set 0)))"
    and inv: "entry_in_stored_family example_set \<longrightarrow>
          entry_in_stored_family fs' \<and> (\<forall>m. 0 \<notin> set (family_entries fs' m))"
    by blast
  from fam have "family_entries fs' ''A'' = []"
    by (simp add: example_set_facts)
  with h r name inv example_set_invariant show ?thesis
    by (auto simp: example_set_facts)
qed

text \<open>
  C3.  In a state whose cached "has loading faces" flag is coherent (dirty, or equal to
  what a scan of the recorded faces gives), \<^verbatim>\<open>CheckLoadingStarted\<close> changes the aggregate
  status only from \<open>Loaded\<close> to \<open>Loading\<close> and only when some recorded face is loading, and
  then it does; \<^verbatim>\<open>CheckLoadingFinished\<close> changes it only from \<open>Loading\<close> to \<open>Loaded\<close> and only
  when the delayed-check flag is clear, the ready promise is pending and no recorded face
  is loading, and then it does.  While the delayed-check flag is set
  \<^verbatim>\<open>CheckLoadingFinished\<close> returns the state as it is, and while a recorded face is loading
  it leaves the status alone.  Both keep the faces, the records and the coherence of the
  flag.  The two callers in the coordinator change the status only through them: a status
  change of a face sets \<open>Loading\<close> only when that face and hence some recorded face is loading
  and a terminal status of a face never changes the aggregate at once, and the delayed
  check sets \<open>Loaded\<close> only when the promise is pending and no recorded face is loading.
\<close>

theorem C3_status_transitions:
  assumes coh: "cache_coherent fs"
  shows
    "(mStatus (CheckLoadingStarted fs) \<noteq> mStatus fs \<longrightarrow>
        mStatus fs = Loaded \<and> mStatus (CheckLoadingStarted fs) = Loading
        \<and> any_face_loading (faces fs) (mNonRuleFaces fs))
     \<and> (mStatus fs = Loaded \<and> any_face_loading (faces fs) (mNonRuleFaces fs) \<longrightarrow>
          mStatus (CheckLoadingStarted fs) = Loading)
     \<and> (mStatus (CheckLoadingFinished fs) \<noteq> mStatus fs \<longrightarrow>
          mStatus fs = Loading \<and> mStatus (CheckLoadingFinished fs) = Loaded
          \<and> \<not> mDelayedLoadCheck fs \<and> ReadyPromiseIsPending fs
          \<and> \<not> any_face_loading (faces fs) (mNonRuleFaces fs))
     \<and> (mStatus fs = Loading \<and> \<not> mDelayedLoadCheck fs \<and> ReadyPromiseIsPending fs
          \<and> \<not> any_face_loading (faces fs) (mNonRuleFaces fs) \<longrightarrow>
          mStatus (CheckLoadingFinished fs) = Loaded)
     \<and> (mDelayedLoadCheck fs \<longrightarrow> CheckLoadingFinished fs = fs)
     \<and> (any_face_loading (faces fs) (mNonRuleFaces fs) \<longrightarrow>
          mStatus (CheckLoadingFinished fs) = mStatus fs)
     \<and> (any_face_loading (faces fs) (mNonRuleFaces fs)
          = (\<exists>r \<in> set (mNonRuleFaces fs). Status (faces fs (mFontFace r)) = Face_Loading))
     \<and> cache_coherent (CheckLoadingStarted fs) \<and> cache_coherent (CheckLoadingFinished fs)
     \<and> faces (CheckLoadingStarted fs) = faces fs \<and> faces (CheckLoadingFinished fs) = faces fs
     \<and> mNonRuleFaces (CheckLoadingStarted fs) = mNonRuleFaces fs
     \<and> mNonRuleFaces (CheckLoadingFinished fs) = mNonRuleFaces fs
     \<and> mStatus (OnFontFaceStatusChanged f fs) =
         (if Status (faces fs f) = Face_Loading
             \<and> any_face_loading (faces fs) (mNonRuleFaces fs)
          then Loading else mStatus fs)
     \<and> mStatus (CheckLoadingFinishedAfterDelay fs) =
         (if ReadyPromiseIsPending fs \<and> \<not> any_face_loading (faces fs) (mNonRuleFaces fs)
          then Loaded else mStatus fs)"
proof -
  note h = HasLoadingFontFaces_coherent [OF coh]
  have d: "mDelayedLoadCheck fs \<longrightarrow> CheckLoadingFinished fs = fs"
    by (simp add: CheckLoadingFinished_def)
  show ?thesis
    using d Check_keeps_coherent [OF coh] any_face_loading_iff [of "faces fs" "mNonRuleFaces fs"]
      OnFontFaceStatusChanged_status [of f fs] CheckLoadingFinishedAfterDelay_status [OF coh]
    by (cases "mStatus fs")
       (simp_all add: CheckLoadingStarted_status CheckLoadingFinished_status h Check_frame)
qed

theorem C3_status_transitions_witness:
  "cache_coherent example_loading_set
   \<and> mStatus example_loading_set = Loaded
   \<and> any_face_loading (faces example_loading_set) (mNonRuleFaces example_loading_set)
   \<and> mStatus (CheckLoadingStarted example_loading_set) = Loading
   \<and> mStatus (CheckLoadingFinished example_loading_set) = Loaded
   \<and> cache_coherent example_finishing_set
   \<and> mStatus example_finishing_set = Loading
   \<and> \<not> mDelayedLoadCheck example_finishing_set
   \<and> ReadyPromiseIsPending example_finishing_set
   \<and> \<not> any_face_loading (faces example_finishing_set) (mNonRuleFaces example_finishing_set)
   \<and> mStatus (CheckLoadingFinished example_finishing_set) = Loaded
   \<and> mStatus (CheckLoadingStarted example_finishing_set) = Loading
   \<and> cache_coherent (example_finishing_set\<lparr>mDelayedLoadCheck := True\<rparr>)
   \<and> CheckLoadingFinished (example_finishing_set\<lparr>mDelayedLoadCheck := True\<rparr>)
       = example_finishing_set\<lparr>mDelayedLoadCheck := True\<rparr>"
proof -
  have c1: "cache_coherent example_loading_set"
    and s1: "mStatus example_loading_set = Loaded"
    and l1: "any_face_loading (faces example_loading_set) (mNonRuleFaces example_loading_set)"
    by (simp_all add: cache_coherent_def example_defs)
  have c2: "cache_coherent example_finishing_set"
    and s2: "mStatus example_finishing_set = Loading"
    and d2: "\<not> mDelayedLoadCheck example_finishing_set"
    and p2: "ReadyPromiseIsPending example_finishing_set"
    and l2: "\<not> any_face_loading (faces example_finishing_set) (mNonRuleFaces example_finishing_set)"
    by (simp_all add: cache_coherent_def ReadyPromiseIsPending_def example_defs)
  have c3: "cache_coherent (example_finishing_set\<lparr>mDelayedLoadCheck := True\<rparr>)"
    using c2 by (simp add: cache_coherent_def)
  have a: "mStatus (CheckLoadingStarted example_loading_set) = Loading"
    "mStatus (CheckLoadingFinished example_loading_set) = Loaded"
    using C3_status_transitions [OF c1] s1 l1 by simp_all
  have b: "mStatus (CheckLoadingFinished example_finishing_set) = Loaded"
    "mStatus (CheckLoadingStarted example_finishing_set) = Loading"
    using C3_status_transitions [OF c2] s2 d2 p2 l2 by auto
  have c: "CheckLoadingFinished (example_finishing_set\<lparr>mDelayedLoadCheck := True\<rparr>)
       = example_finishing_set\<lparr>mDelayedLoadCheck := True\<rparr>"
    using C3_status_transitions [OF c3] by simp
  show ?thesis
    using c1 s1 l1 c2 s2 d2 p2 l2 c3 a b c by simp
qed

text \<open>
  C5, as stated, fails for a rule-derived face that is already a member of the set: the
  membership test comes first, so \<^verbatim>\<open>Add\<close> returns false and throws nothing.
\<close>

theorem C5_rule_member_counterexample:
  "HasRule (faces example_set 3) \<and> Add id 3 example_set = (False, None, example_set)"
  by (simp add: Add_cases IsInFontFaceSet_def example_set_def example_rule_face_def
        example_face_def)

text \<open>
  C5, amended.  After the flush: when the face is already a member, \<^verbatim>\<open>Add\<close> returns false,
  throws nothing and leaves the flushed state as it is; when it is not a member and is
  rule-derived, \<^verbatim>\<open>Add\<close> returns false with \<open>InvalidModificationError\<close> and leaves the flushed
  state as it is; so a rule-derived face always fails and changes nothing.  \<^verbatim>\<open>Add\<close> returns
  true exactly in the remaining case, and then the face is a member, its record is
  appended after the others, the three dirty marks are set before \<^verbatim>\<open>CheckLoadingStarted\<close>
  runs on that state, no other face changes, and the status is \<open>Loading\<close> if a recorded
  face is loading and otherwise what it was.
\<close>

theorem C5_add:
  "(IsInFontFaceSet (flush fs) f \<longrightarrow> Add flush f fs = (False, None, flush fs))
   \<and> (\<not> IsInFontFaceSet (flush fs) f \<and> HasRule (faces (flush fs) f) \<longrightarrow>
        Add flush f fs = (False, Some InvalidModificationError, flush fs))
   \<and> (HasRule (faces (flush fs) f) \<longrightarrow>
        \<not> fst (Add flush f fs) \<and> snd (snd (Add flush f fs)) = flush fs)
   \<and> (fst (Add flush f fs) = (\<not> IsInFontFaceSet (flush fs) f \<and> \<not> HasRule (faces (flush fs) f)))
   \<and> (\<not> IsInFontFaceSet (flush fs) f \<and> \<not> HasRule (faces (flush fs) f) \<longrightarrow>
        (\<exists>fs'. Add flush f fs = (True, None, fs')
           \<and> fs' = CheckLoadingStarted (add_prepared f (flush fs))
           \<and> mHasLoadingFontFacesIsDirty (add_prepared f (flush fs))
           \<and> mNonRuleFaces fs' = mNonRuleFaces (flush fs) @ [\<lparr>mFontFace = f, mOrigin = None\<rparr>]
           \<and> mNonRuleFacesDirty fs' \<and> userFontSetDirty fs'
           \<and> IsInFontFaceSet fs' f
           \<and> (\<forall>g. g \<noteq> f \<longrightarrow> faces fs' g = faces (flush fs) g)
           \<and> mStatus fs' =
               (if any_face_loading (faces fs') (mNonRuleFaces fs') then Loading
                else mStatus (flush fs))))"
proof -
  let ?p = "add_prepared f (flush fs)"
  have st: "mStatus (CheckLoadingStarted ?p) =
      (if any_face_loading (faces (CheckLoadingStarted ?p)) (mNonRuleFaces (CheckLoadingStarted ?p))
       then Loading else mStatus (flush fs))"
    using HasLoadingFontFaces_dirty [of ?p]
    by (simp add: CheckLoadingStarted_status Check_frame add_prepared_facts)
  show ?thesis
    using st
    by (simp add: Add_cases IsInFontFaceSet_def Check_frame Check_frame2 add_prepared_facts)
qed

theorem C5_add_witness:
  "IsInFontFaceSet (id example_set) 0
   \<and> Add id 0 example_set = (False, None, example_set)
   \<and> \<not> IsInFontFaceSet (id example_set) 4 \<and> HasRule (faces (id example_set) 4)
   \<and> Add id 4 example_set = (False, Some InvalidModificationError, example_set)
   \<and> \<not> IsInFontFaceSet (id example_set) 2 \<and> \<not> HasRule (faces (id example_set) 2)
   \<and> (\<exists>fs'. Add id 2 example_set = (True, None, fs')
         \<and> mNonRuleFaces fs'
             = [\<lparr>mFontFace = 0, mOrigin = None\<rparr>, \<lparr>mFontFace = 2, mOrigin = None\<rparr>]
         \<and> mNonRuleFacesDirty fs' \<and> userFontSetDirty fs' \<and> IsInFontFaceSet fs' 2)"
proof -
  have a: "Add id 0 example_set = (False, None, example_set)"
    using C5_add [of id example_set 0] by (simp add: example_membership)
  have b: "Add id 4 example_set = (False, Some InvalidModificationError, example_set)"
    using C5_add [of id example_set 4] by (simp add: example_membership)
  have c: "\<exists>fs'. Add id 2 example_set = (True, None, fs')
         \<and> mNonRuleFaces fs'
             = [\<lparr>mFontFace = 0, mOrigin = None\<rparr>, \<lparr>mFontFace = 2, mOrigin = None\<rparr>]
         \<and> mNonRuleFacesDirty fs' \<and> userFontSetDirty fs' \<and> IsInFontFaceSet fs' 2"
    using C5_add [of id example_set 2] by (simp add: example_membership)
  show ?thesis
    using a b c by (simp add: example_membership)
qed




text \<open>
  C8.  After the flush: when there is no record, \<^verbatim>\<open>Clear\<close> returns the flushed state as it
  is (no flag set, no check run, nothing dispatched).  Otherwise every recorded face
  leaves the set and no other face changes, the list is emptied, the three dirty marks are
  set, and \<^verbatim>\<open>CheckLoadingFinished\<close> runs on that state; the status is then \<open>Loaded\<close> if no
  delayed check is outstanding and the ready promise is pending, and otherwise what it
  was.
\<close>

theorem C8_clear:
  "(mNonRuleFaces (flush fs) = [] \<longrightarrow> Clear flush fs = flush fs)
   \<and> (mNonRuleFaces (flush fs) \<noteq> [] \<longrightarrow>
        Clear flush fs = CheckLoadingFinished (clear_prepared (flush fs))
        \<and> mHasLoadingFontFacesIsDirty (clear_prepared (flush fs))
        \<and> mNonRuleFaces (Clear flush fs) = []
        \<and> (\<forall>r \<in> set (mNonRuleFaces (flush fs)).
              \<not> IsInFontFaceSet (Clear flush fs) (mFontFace r))
        \<and> (\<forall>g. g \<notin> mFontFace ` set (mNonRuleFaces (flush fs)) \<longrightarrow>
              faces (Clear flush fs) g = faces (flush fs) g)
        \<and> mNonRuleFacesDirty (Clear flush fs) \<and> userFontSetDirty (Clear flush fs)
        \<and> mStatus (Clear flush fs) =
            (if \<not> mDelayedLoadCheck (flush fs) \<and> ReadyPromiseIsPending (flush fs) then Loaded
             else mStatus (flush fs)))"
proof -
  let ?p = "clear_prepared (flush fs)"
  have h: "\<not> fst (HasLoadingFontFaces ?p)"
    using HasLoadingFontFaces_dirty [of ?p] by (simp add: clear_prepared_facts)
  have st: "mStatus (CheckLoadingFinished ?p) =
      (if \<not> mDelayedLoadCheck (flush fs) \<and> ReadyPromiseIsPending (flush fs) then Loaded
       else mStatus (flush fs))"
    using h by (simp add: CheckLoadingFinished_status clear_prepared_facts)
  show ?thesis
    using st
    by (simp add: Clear_cases Check_frame Check_frame2 clear_prepared_facts IsInFontFaceSet_def)
qed

theorem C8_clear_witness:
  "mNonRuleFaces (id (example_set\<lparr>mNonRuleFaces := []\<rparr>)) = []
   \<and> Clear id (example_set\<lparr>mNonRuleFaces := []\<rparr>) = example_set\<lparr>mNonRuleFaces := []\<rparr>
   \<and> mNonRuleFaces (id example_finishing_set) \<noteq> []
   \<and> mNonRuleFaces (Clear id example_finishing_set) = []
   \<and> \<not> IsInFontFaceSet (Clear id example_finishing_set) 0
   \<and> IsInFontFaceSet (Clear id example_finishing_set) 3
   \<and> mNonRuleFacesDirty (Clear id example_finishing_set)
   \<and> userFontSetDirty (Clear id example_finishing_set)
   \<and> mStatus (Clear id example_finishing_set) = Loaded"
proof -
  have e: "mNonRuleFaces (id (example_set\<lparr>mNonRuleFaces := []\<rparr>)) = []"
    by simp
  have a: "Clear id (example_set\<lparr>mNonRuleFaces := []\<rparr>) = example_set\<lparr>mNonRuleFaces := []\<rparr>"
    using C8_clear [of id "example_set\<lparr>mNonRuleFaces := []\<rparr>"] by simp
  have ne: "mNonRuleFaces (id example_finishing_set) \<noteq> []"
    and recs: "mNonRuleFaces example_finishing_set = [\<lparr>mFontFace = 0, mOrigin = None\<rparr>]"
    and st: "\<not> mDelayedLoadCheck example_finishing_set"
      "ReadyPromiseIsPending example_finishing_set"
    and f3: "mInFontFaceSet (faces example_finishing_set 3)"
    by (simp_all add: example_defs ReadyPromiseIsPending_def)
  note t = C8_clear [of id example_finishing_set, THEN conjunct2, rule_format, OF ne]
  from t have b1: "mNonRuleFaces (Clear id example_finishing_set) = []"
    and b2: "\<forall>r \<in> set (mNonRuleFaces (id example_finishing_set)).
          \<not> IsInFontFaceSet (Clear id example_finishing_set) (mFontFace r)"
    and b3: "\<forall>g. g \<notin> mFontFace ` set (mNonRuleFaces (id example_finishing_set)) \<longrightarrow>
          faces (Clear id example_finishing_set) g = faces (id example_finishing_set) g"
    and b4: "mNonRuleFacesDirty (Clear id example_finishing_set)"
      "userFontSetDirty (Clear id example_finishing_set)"
    and b5: "mStatus (Clear id example_finishing_set) =
        (if \<not> mDelayedLoadCheck (id example_finishing_set)
            \<and> ReadyPromiseIsPending (id example_finishing_set) then Loaded
         else mStatus (id example_finishing_set))"
    by blast+
  from b2 have c2: "\<not> IsInFontFaceSet (Clear id example_finishing_set) 0"
    by (simp add: recs)
  from b3 have "faces (Clear id example_finishing_set) 3 = faces (id example_finishing_set) 3"
    by (simp add: recs)
  with f3 have c3: "IsInFontFaceSet (Clear id example_finishing_set) 3"
    by (simp add: IsInFontFaceSet_def)
  from b5 st have c5: "mStatus (Clear id example_finishing_set) = Loaded"
    by simp
  show ?thesis
    using e a ne b1 c2 c3 b4 c5 by simp
qed




end
